theory Spec2Isabelle
  imports Main "HOL-Library.Monad_Syntax"
begin

section \<open>Python values\<close>

text \<open>
  A Python \<open>str\<close> is a sequence of Unicode code points, so a character is a natural
  number (its code point) and a string a list of them. Python \<open>int\<close>s are unbounded:
  cursor positions, counts and indices are \<open>int\<close>. An operation that raises in Python
  (IndexError, ValueError, ZeroDivisionError, RecursionError) returns \<open>None\<close>.
\<close>

type_synonym uchar = nat
type_synonym ustr = "uchar list"

definition ustr :: "string \<Rightarrow> ustr" where
  "ustr s = map of_char s"

definition isascii :: "ustr \<Rightarrow> bool" where
  "isascii s = list_all (\<lambda>c. c < 128) s"

text \<open>\<open>range(s, stop, step)\<close> for a positive step; empty for a negative one when \<open>s \<le> stop\<close>.\<close>

function range_step :: "int \<Rightarrow> int \<Rightarrow> int \<Rightarrow> int list" where
  "range_step s stop step =
     (if 0 < step \<and> s < stop then s # range_step (s + step) stop step else [])"
  by pat_completeness auto
termination
  by (relation "measure (\<lambda>(s, stop, step). nat (stop - s))") auto

declare range_step.simps [simp del]

section \<open>Python strings and lists\<close>

text \<open>\<open>s.lstrip()\<close>, \<open>s.rstrip()\<close>, \<open>s.strip()\<close>; \<open>sp\<close> is \<open>str.isspace\<close> on one character.\<close>

definition lstrip :: "(uchar \<Rightarrow> bool) \<Rightarrow> ustr \<Rightarrow> ustr" where
  "lstrip sp s = dropWhile sp s"

definition rstrip :: "(uchar \<Rightarrow> bool) \<Rightarrow> ustr \<Rightarrow> ustr" where
  "rstrip sp s = rev (dropWhile sp (rev s))"

definition strip :: "(uchar \<Rightarrow> bool) \<Rightarrow> ustr \<Rightarrow> ustr" where
  "strip sp s = lstrip sp (rstrip sp s)"

text \<open>\<open>s.split(sep)\<close> for a separator of one character: never the empty list.\<close>

fun split_on :: "uchar \<Rightarrow> ustr \<Rightarrow> ustr list" where
  "split_on sep [] = [[]]"
| "split_on sep (c # cs) =
     (if c = sep then [] # split_on sep cs
      else (case split_on sep cs of [] \<Rightarrow> [[c]] | w # ws \<Rightarrow> (c # w) # ws))"

definition split_lines :: "ustr \<Rightarrow> ustr list" where
  "split_lines s = split_on 10 s"

text \<open>\<open>sep.join(xs)\<close>.\<close>

fun join :: "ustr \<Rightarrow> ustr list \<Rightarrow> ustr" where
  "join sep [] = []"
| "join sep [x] = x"
| "join sep (x # y # ys) = x @ sep @ join sep (y # ys)"

text \<open>
  List indexing: \<open>xs[i]\<close> counts a negative index from the end and raises IndexError out
  of range; a slice bound is clipped instead. \<open>xs.insert(i, v)\<close> clips like a slice,
  \<open>xs.pop(i)\<close> and \<open>xs[i] = v\<close> raise like an index.
\<close>

definition py_index :: "'a list \<Rightarrow> int \<Rightarrow> nat option" where
  "py_index xs i =
     (let n = int (length xs) in
      if 0 \<le> i \<and> i < n then Some (nat i)
      else if - n \<le> i \<and> i < 0 then Some (nat (n + i))
      else None)"

definition py_get :: "'a list \<Rightarrow> int \<Rightarrow> 'a option" where
  "py_get xs i = map_option (\<lambda>k. xs ! k) (py_index xs i)"

definition py_set :: "'a list \<Rightarrow> int \<Rightarrow> 'a \<Rightarrow> 'a list option" where
  "py_set xs i v = map_option (\<lambda>k. xs[k := v]) (py_index xs i)"

definition py_pop :: "'a list \<Rightarrow> int \<Rightarrow> 'a list option" where
  "py_pop xs i = map_option (\<lambda>k. take k xs @ drop (Suc k) xs) (py_index xs i)"

definition slice_bound :: "'a list \<Rightarrow> int \<Rightarrow> nat" where
  "slice_bound xs i =
     (if i < 0 then nat (max 0 (int (length xs) + i)) else min (nat i) (length xs))"

definition py_slice :: "'a list \<Rightarrow> int \<Rightarrow> int \<Rightarrow> 'a list" where
  "py_slice xs i j = take (slice_bound xs j - slice_bound xs i) (drop (slice_bound xs i) xs)"

definition slice_to :: "'a list \<Rightarrow> int \<Rightarrow> 'a list" where
  "slice_to xs j = take (slice_bound xs j) xs"

definition slice_from :: "'a list \<Rightarrow> int \<Rightarrow> 'a list" where
  "slice_from xs i = drop (slice_bound xs i) xs"

definition py_insert :: "'a list \<Rightarrow> int \<Rightarrow> 'a \<Rightarrow> 'a list" where
  "py_insert xs i v = take (slice_bound xs i) xs @ v # drop (slice_bound xs i) xs"


primrec for_loop :: "'a list \<Rightarrow> ('a \<Rightarrow> 's \<Rightarrow> 's option) \<Rightarrow> 's \<Rightarrow> 's option" where
  "for_loop [] body s = Some s"
| "for_loop (x # xs) body s = (case body x s of None \<Rightarrow> None | Some s' \<Rightarrow> for_loop xs body s')"

section \<open>The Python library\<close>

text \<open>
  What the code calls in the Python library and is no code of the repository: the
  Unicode tables behind \<open>unicodedata.east_asian_width\<close>, \<open>str.isspace\<close>,
  \<open>str.isalnum\<close>, \<open>str.isprintable\<close> and \<open>str.isdigit\<close>, \<open>int(s)\<close> (\<open>None\<close>
  is ValueError), \<open>json.loads\<close>, \<open>json.dumps(v, indent=4 or None, ensure_ascii=False,
  sort_keys=...)\<close> over parsed values of type \<open>'j\<close>, and
  \<open>difflib.SequenceMatcher(None, a, b).get_opcodes()\<close>.

  \<open>json.loads\<close> returns a value or raises one of three exceptions: JSONDecodeError,
  with its \<open>msg\<close> and \<open>lineno\<close>, for a text that is no JSON document; a ValueError
  that is no JSONDecodeError, for an integer literal of more digits than \<open>int\<close>
  converts; RecursionError, for brackets nested deeper than the interpreter's stack.
  \<open>json.dumps\<close> of a parsed value raises RecursionError on such nesting too
  (\<open>None\<close>); \<open>json.dumps\<close> of a string (\<open>json_dumps_str\<close>) always returns.
\<close>

datatype optag = OpEqual | OpDelete | OpInsert | OpReplace

datatype 'j loaded = Loaded 'j | JSONDecodeError ustr int | ValueError | RecursionError

type_synonym opcode = "optag \<times> int \<times> int \<times> int \<times> int"

record 'j pyenv =
  east_asian_wide :: "uchar \<Rightarrow> bool"
  isspace :: "uchar \<Rightarrow> bool"
  isalnum :: "uchar \<Rightarrow> bool"
  isprintable :: "uchar \<Rightarrow> bool"
  isdigit :: "uchar \<Rightarrow> bool"
  int_of_str :: "ustr \<Rightarrow> int option"
  json_loads :: "ustr \<Rightarrow> 'j loaded"
  json_dumps :: "bool \<Rightarrow> bool \<Rightarrow> 'j \<Rightarrow> ustr option"
  json_dumps_str :: "ustr \<Rightarrow> ustr"
  json_str_value :: "'j \<Rightarrow> ustr option"
  json_is_container :: "'j \<Rightarrow> bool"
  get_opcodes :: "ustr list \<Rightarrow> ustr list \<Rightarrow> opcode list"

text \<open>
  \<open>json.dumps(json.loads(t), ...)\<close> inside \<open>try: ... except json.JSONDecodeError\<close>:
  the serialization, \<open>Inl (msg, lineno)\<close> when the handler runs, and \<open>None\<close> when
  another exception leaves the \<open>try\<close> block.
\<close>

definition loads_dumps ::
  "'j pyenv \<Rightarrow> bool \<Rightarrow> bool \<Rightarrow> ustr \<Rightarrow> ((ustr \<times> int) + ustr) option" where
  "loads_dumps env indent sort_keys t =
     (case json_loads env t of
        Loaded v \<Rightarrow> map_option Inr (json_dumps env indent sort_keys v)
      | JSONDecodeError msg lineno \<Rightarrow> Some (Inl (msg, lineno))
      | ValueError \<Rightarrow> None
      | RecursionError \<Rightarrow> None)"

section \<open>Diff engine (diff.py)\<close>

datatype DiffTag = EQUAL | INSERT | DELETE | REPLACE

record DiffHunk =
  left_start :: int
  left_count :: int
  right_start :: int
  right_count :: int
  tag :: DiffTag

record DiffResult =
  left_lines :: "ustr list"
  right_lines :: "ustr list"
  left_line_tags :: "DiffTag list"
  right_line_tags :: "DiffTag list"
  hunks :: "DiffHunk list"




definition mk_hunk :: "int \<Rightarrow> int \<Rightarrow> DiffTag \<Rightarrow> DiffHunk" where
  "mk_hunk start count t =
     \<lparr>left_start = start, left_count = count, right_start = start, right_count = count, tag = t\<rparr>"



text \<open>
  \<open>_try_format\<close> catches JSONDecodeError and ValueError; a RecursionError of
  \<open>json.loads\<close> or \<open>json.dumps\<close> leaves it.
\<close>

definition try_format :: "'j pyenv \<Rightarrow> ustr \<Rightarrow> bool \<Rightarrow> ustr option" where
  "try_format env content sort_keys =
     (case json_loads env content of
        Loaded v \<Rightarrow> json_dumps env True sort_keys v
      | JSONDecodeError msg lineno \<Rightarrow> Some content
      | ValueError \<Rightarrow> Some content
      | RecursionError \<Rightarrow> None)"

definition format_json :: "'j pyenv \<Rightarrow> ustr \<Rightarrow> ustr option" where
  "format_json env content = try_format env content False"

definition normalize_json :: "'j pyenv \<Rightarrow> ustr \<Rightarrow> ustr option" where
  "normalize_json env content = try_format env content True"





text \<open>
  \<open>indent_counts\<close> is a dictionary; it is kept as an association list in insertion
  order, which is the order \<open>max(indent_counts, key=indent_counts.get)\<close> iterates in:
  \<open>max\<close> returns the first key whose count is maximal.
\<close>

fun count_up :: "(int \<times> int) list \<Rightarrow> int \<Rightarrow> (int \<times> int) list" where
  "count_up [] k = [(k, 1)]"
| "count_up ((k', c) # kcs) k = (if k' = k then (k', c + 1) # kcs else (k', c) # count_up kcs k)"

fun max_key :: "(int \<times> int) list \<Rightarrow> (int \<times> int) option" where
  "max_key [] = None"
| "max_key ((k, c) # kcs) =
     (case max_key kcs of
        None \<Rightarrow> Some (k, c)
      | Some (k', c') \<Rightarrow> if c' > c then Some (k', c') else Some (k, c))"

definition is_open :: "uchar \<Rightarrow> bool" where
  "is_open ch = (ch = 123 \<or> ch = 91)"

definition is_close :: "uchar \<Rightarrow> bool" where
  "is_close ch = (ch = 125 \<or> ch = 93)"

definition indent_counts :: "'j pyenv \<Rightarrow> ustr list \<Rightarrow> (int \<times> int) list" where
  "indent_counts env lines =
     fold (\<lambda>line counts.
        (let stripped = lstrip (isspace env) line in
         if stripped \<noteq> [] \<and> is_open (hd stripped)
         then count_up counts (int (length line) - int (length stripped))
         else counts)) lines []"

definition detect_blocks :: "'j pyenv \<Rightarrow> ustr list \<Rightarrow> (int \<times> int) option" where
  "detect_blocks env lines =
     (case max_key (indent_counts env lines) of
        None \<Rightarrow> None
      | Some (best_indent, count) \<Rightarrow> if count < 4 then None else Some (best_indent, count))"


definition enumerate_from :: "int \<Rightarrow> 'a list \<Rightarrow> (int \<times> 'a) list" where
  "enumerate_from n xs = zip (map (\<lambda>k. n + int k) [0..<length xs]) xs"





definition newline :: ustr where
  "newline = [10]"












section \<open>Text buffer and modal engine (editor.py)\<close>

datatype EditorMode = Normal | Insert | Command

text \<open>The messages \<open>post_message\<close> hands to the host.\<close>

datatype message =
    JsonValidated ustr bool ustr
  | FileSaveRequested ustr ustr bool
  | FileOpenRequested ustr
  | Quit
  | ForceQuit
  | HelpToggleRequested
  | EmbeddedEditRequested ustr int int int

text \<open>A key event: \<open>event.key\<close> and \<open>event.character\<close> (a string or \<open>None\<close>).\<close>

record key_event =
  key :: ustr
  character :: "ustr option"

type_synonym snapshot = "ustr list \<times> int \<times> int"

text \<open>
  The fields of \<open>JsonEditor\<close>. \<open>region_height\<close> is \<open>self.content_region.height\<close>,
  which the host sets; \<open>outbox\<close> collects the posted messages.
\<close>

record editor =
  read_only :: bool
  jsonl :: bool
  lines :: "ustr list"
  cursor_row :: int
  cursor_col :: int
  mode :: EditorMode
  command_buffer :: ustr
  pending :: ustr
  status_msg :: ustr
  undo_stack :: "snapshot list"
  redo_stack :: "snapshot list"
  yank_buffer :: "ustr list"
  scroll_top :: int
  dot_buffer :: "(ustr \<times> ustr option) list"
  dot_recording :: bool
  dot_replaying :: bool
  region_height :: int
  outbox :: "message list"

definition post_message :: "editor \<Rightarrow> message \<Rightarrow> editor" where
  "post_message s m = s\<lparr>outbox := outbox s @ [m]\<rparr>"

text \<open>\<open>str(n)\<close> for an integer, as the f-strings of the status messages format it.\<close>

function digits_of :: "nat \<Rightarrow> ustr" where
  "digits_of n = (if n < 10 then [48 + n] else digits_of (n div 10) @ [48 + n mod 10])"
  by pat_completeness auto
termination
  by (relation "measure id") auto

declare digits_of.simps [simp del]

definition str_of_int :: "int \<Rightarrow> ustr" where
  "str_of_int i = (if i < 0 then 45 # digits_of (nat (- i)) else digits_of (nat i))"

subsection \<open>Helpers\<close>

definition dot_start :: "editor \<Rightarrow> key_event \<Rightarrow> editor" where
  "dot_start s ev =
     (if dot_replaying s then s
      else s\<lparr>dot_buffer := [(key ev, character ev)], dot_recording := True\<rparr>)"

definition dot_stop :: "editor \<Rightarrow> editor" where
  "dot_stop s = s\<lparr>dot_recording := False\<rparr>"

text \<open>\<open>undo_stack.append(e)\<close>, then \<open>undo_stack.pop(0)\<close> when more than 200 entries are held.\<close>

definition push_bounded :: "snapshot list \<Rightarrow> snapshot \<Rightarrow> snapshot list" where
  "push_bounded stack e =
     (let pushed = stack @ [e] in if length pushed > 200 then tl pushed else pushed)"

definition save_undo :: "editor \<Rightarrow> editor" where
  "save_undo s =
     s\<lparr>undo_stack := push_bounded (undo_stack s) (lines s, cursor_row s, cursor_col s),
       redo_stack := []\<rparr>"

definition clamp_cursor :: "editor \<Rightarrow> editor option" where
  "clamp_cursor s =
     (let row = max 0 (min (cursor_row s) (int (length (lines s)) - 1)) in
      do {
        line \<leftarrow> py_get (lines s) row;
        let line_len = int (length line);
        let max_col = (if mode s = Normal
                       then (if line_len \<noteq> 0 then max 0 (line_len - 1) else 0)
                       else line_len);
        Some (s\<lparr>cursor_row := row, cursor_col := max 0 (min (cursor_col s) max_col)\<rparr>) })"

definition visible_height :: "editor \<Rightarrow> int" where
  "visible_height s = max 1 (region_height s - 2)"

definition get_content :: "editor \<Rightarrow> ustr" where
  "get_content s = join newline (lines s)"

definition enter_insert :: "editor \<Rightarrow> editor" where
  "enter_insert s =
     (if read_only s then s\<lparr>status_msg := ustr ''[readonly]''\<rparr>
      else s\<lparr>mode := Insert, status_msg := ustr ''-- INSERT --''\<rparr>)"

subsection \<open>Movement helpers\<close>

definition leading_ws :: "'j pyenv \<Rightarrow> ustr \<Rightarrow> int" where
  "leading_ws env line = int (length line) - int (length (lstrip (isspace env) line))"

definition current_indent :: "'j pyenv \<Rightarrow> editor \<Rightarrow> int option" where
  "current_indent env s = do {
     line \<leftarrow> py_get (lines s) (cursor_row s);
     Some (if strip (isspace env) line \<noteq> [] then leading_ws env line else 0) }"

definition is_word :: "'j pyenv \<Rightarrow> uchar \<Rightarrow> bool" where
  "is_word env ch = (isalnum env ch \<or> ch = 95)"

text \<open>\<open>while col < len(line) and p(line[col]): col += 1\<close>\<close>

function scan_fwd :: "(uchar \<Rightarrow> bool) \<Rightarrow> ustr \<Rightarrow> int \<Rightarrow> int option" where
  "scan_fwd p line col =
     (if col < int (length line)
      then (case py_get line col of
              None \<Rightarrow> None
            | Some ch \<Rightarrow> if p ch then scan_fwd p line (col + 1) else Some col)
      else Some col)"
  by pat_completeness auto
termination
  by (relation "measure (\<lambda>(p, line, col). nat (int (length line) - col))") auto

declare scan_fwd.simps [simp del]

text \<open>\<open>while col > 0 and p(line[col + off]): col -= 1\<close>\<close>

function scan_bwd :: "(uchar \<Rightarrow> bool) \<Rightarrow> int \<Rightarrow> ustr \<Rightarrow> int \<Rightarrow> int option" where
  "scan_bwd p off line col =
     (if col > 0
      then (case py_get line (col + off) of
              None \<Rightarrow> None
            | Some ch \<Rightarrow> if p ch then scan_bwd p off line (col - 1) else Some col)
      else Some col)"
  by pat_completeness auto
termination
  by (relation "measure (\<lambda>(p, off, line, col). nat col)") auto

declare scan_bwd.simps [simp del]

definition move_word_forward :: "'j pyenv \<Rightarrow> editor \<Rightarrow> editor option" where
  "move_word_forward env s = do {
     line \<leftarrow> py_get (lines s) (cursor_row s);
     col1 \<leftarrow> scan_fwd (is_word env) line (cursor_col s);
     col2 \<leftarrow> scan_fwd (\<lambda>ch. \<not> is_word env ch) line col1;
     (if col2 \<ge> int (length line) \<and> cursor_row s < int (length (lines s)) - 1
      then do {
        nline \<leftarrow> py_get (lines s) (cursor_row s + 1);
        Some (s\<lparr>cursor_row := cursor_row s + 1, cursor_col := leading_ws env nline\<rparr>) }
      else Some (s\<lparr>cursor_col := min col2 (max 0 (int (length line) - 1))\<rparr>)) }"

definition move_word_backward :: "'j pyenv \<Rightarrow> editor \<Rightarrow> editor option" where
  "move_word_backward env s = do {
     line \<leftarrow> py_get (lines s) (cursor_row s);
     (if cursor_col s = 0
      then (if cursor_row s > 0
            then do {
              pline \<leftarrow> py_get (lines s) (cursor_row s - 1);
              Some (s\<lparr>cursor_row := cursor_row s - 1,
                      cursor_col := max 0 (int (length pline) - 1)\<rparr>) }
            else Some s)
      else do {
        col1 \<leftarrow> scan_bwd (\<lambda>ch. \<not> is_word env ch) 0 line (cursor_col s - 1);
        col2 \<leftarrow> scan_bwd (is_word env) (- 1) line col1;
        Some (s\<lparr>cursor_col := col2\<rparr>) }) }"

text \<open>
  The nested loops of \<open>_search_bracket_forward\<close>: \<open>Some None\<close> when the loops end
  without a match, \<open>Some (Some (row, col))\<close> at the match.
\<close>

function search_fwd ::
  "ustr list \<Rightarrow> uchar \<Rightarrow> uchar \<Rightarrow> int \<Rightarrow> int \<Rightarrow> int \<Rightarrow> (int \<times> int) option option" where
  "search_fwd ls open_ch close_ch row col depth =
     (if row < int (length ls)
      then (case py_get ls row of
              None \<Rightarrow> None
            | Some line \<Rightarrow>
                if col < int (length line)
                then (case py_get line col of
                        None \<Rightarrow> None
                      | Some ch \<Rightarrow>
                          if ch = open_ch then search_fwd ls open_ch close_ch row (col + 1) (depth + 1)
                          else if ch = close_ch
                          then (if depth - 1 = 0 then Some (Some (row, col))
                                else search_fwd ls open_ch close_ch row (col + 1) (depth - 1))
                          else search_fwd ls open_ch close_ch row (col + 1) depth)
                else search_fwd ls open_ch close_ch (row + 1) 0 depth)
      else Some None)"
  by pat_completeness auto
termination
  by (relation "inv_image (less_than <*lex*> less_than)
        (\<lambda>(ls, open_ch, close_ch, row, col, depth).
           (nat (int (length ls) - row),
            nat (int (length (case py_get ls row of Some line \<Rightarrow> line | None \<Rightarrow> [])) - col)))")
     auto

declare search_fwd.simps [simp del]

definition search_bracket_forward :: "editor \<Rightarrow> uchar \<Rightarrow> uchar \<Rightarrow> editor option" where
  "search_bracket_forward s open_ch close_ch = do {
     found \<leftarrow> search_fwd (lines s) open_ch close_ch (cursor_row s) (cursor_col s + 1) 1;
     Some (case found of
             Some (row, col) \<Rightarrow> s\<lparr>cursor_row := row, cursor_col := col\<rparr>
           | None \<Rightarrow> s) }"

text \<open>The nested loops of \<open>_search_bracket_backward\<close>.\<close>

function search_bwd ::
  "ustr list \<Rightarrow> uchar \<Rightarrow> uchar \<Rightarrow> int \<Rightarrow> int \<Rightarrow> int \<Rightarrow> (int \<times> int) option option" where
  "search_bwd ls close_ch open_ch row col depth =
     (if row \<ge> 0
      then (case py_get ls row of
              None \<Rightarrow> None
            | Some line \<Rightarrow>
                if col \<ge> 0
                then (case py_get line col of
                        None \<Rightarrow> None
                      | Some ch \<Rightarrow>
                          if ch = close_ch then search_bwd ls close_ch open_ch row (col - 1) (depth + 1)
                          else if ch = open_ch
                          then (if depth - 1 = 0 then Some (Some (row, col))
                                else search_bwd ls close_ch open_ch row (col - 1) (depth - 1))
                          else search_bwd ls close_ch open_ch row (col - 1) depth)
                else (if row - 1 \<ge> 0
                      then (case py_get ls (row - 1) of
                              None \<Rightarrow> None
                            | Some pline \<Rightarrow>
                                search_bwd ls close_ch open_ch (row - 1) (int (length pline) - 1) depth)
                      else Some None))
      else Some None)"
  by pat_completeness auto
termination
  by (relation "inv_image (less_than <*lex*> less_than)
        (\<lambda>(ls, close_ch, open_ch, row, col, depth). (nat (row + 1), nat (col + 1)))")
     auto

declare search_bwd.simps [simp del]

definition search_bracket_backward :: "editor \<Rightarrow> uchar \<Rightarrow> uchar \<Rightarrow> editor option" where
  "search_bracket_backward s close_ch open_ch = do {
     found \<leftarrow> search_bwd (lines s) close_ch open_ch (cursor_row s) (cursor_col s - 1) 1;
     Some (case found of
             Some (row, col) \<Rightarrow> s\<lparr>cursor_row := row, cursor_col := col\<rparr>
           | None \<Rightarrow> s) }"

text \<open>\<open>pairs = {"{": "}", "[": "]", "(": ")"}\<close> and its inverse \<open>rpairs\<close>.\<close>

definition pairs :: "uchar \<Rightarrow> uchar option" where
  "pairs ch = (if ch = 123 then Some 125 else if ch = 91 then Some 93
               else if ch = 40 then Some 41 else None)"

definition rpairs :: "uchar \<Rightarrow> uchar option" where
  "rpairs ch = (if ch = 125 then Some 123 else if ch = 93 then Some 91
                else if ch = 41 then Some 40 else None)"

definition jump_matching_bracket :: "editor \<Rightarrow> editor option" where
  "jump_matching_bracket s = do {
     line \<leftarrow> py_get (lines s) (cursor_row s);
     (if cursor_col s \<ge> int (length line) then Some s
      else do {
        ch \<leftarrow> py_get line (cursor_col s);
        (case pairs ch of
           Some close_ch \<Rightarrow> search_bracket_forward s ch close_ch
         | None \<Rightarrow>
             (case rpairs ch of
                Some open_ch \<Rightarrow> search_bracket_backward s ch open_ch
              | None \<Rightarrow> Some s)) }) }"

subsection \<open>Edit helpers\<close>

definition delete_word :: "'j pyenv \<Rightarrow> editor \<Rightarrow> editor option" where
  "delete_word env s = do {
     line \<leftarrow> py_get (lines s) (cursor_row s);
     let start = cursor_col s;
     col1 \<leftarrow> scan_fwd (is_word env) line start;
     col2 \<leftarrow> scan_fwd (\<lambda>ch. ch = 32) line col1;
     let col3 = (if col2 = start \<and> col2 < int (length line) then col2 + 1 else col2);
     ls \<leftarrow> py_set (lines s) (cursor_row s) (slice_to line start @ slice_from line col3);
     Some (s\<lparr>lines := ls\<rparr>) }"

definition paste_after :: "editor \<Rightarrow> editor" where
  "paste_after s =
     (if yank_buffer s = [] then s
      else (let s1 = save_undo s;
                ls = fold (\<lambda>(i, line) ls. py_insert ls (cursor_row s1 + 1 + i) line)
                       (enumerate_from 0 (yank_buffer s1)) (lines s1)
            in s1\<lparr>lines := ls, cursor_row := cursor_row s1 + 1, cursor_col := 0\<rparr>))"

definition paste_before :: "editor \<Rightarrow> editor" where
  "paste_before s =
     (if yank_buffer s = [] then s
      else (let s1 = save_undo s;
                ls = fold (\<lambda>(i, line) ls. py_insert ls (cursor_row s1 + i) line)
                       (enumerate_from 0 (yank_buffer s1)) (lines s1)
            in s1\<lparr>lines := ls, cursor_col := 0\<rparr>))"

definition join_lines :: "'j pyenv \<Rightarrow> editor \<Rightarrow> editor option" where
  "join_lines env s =
     (if cursor_row s \<ge> int (length (lines s)) - 1 then Some s
      else (let s1 = save_undo s in
            do {
              cur_line \<leftarrow> py_get (lines s1) (cursor_row s1);
              let cur = rstrip (isspace env) cur_line;
              nxt_line \<leftarrow> py_get (lines s1) (cursor_row s1 + 1);
              let nxt = lstrip (isspace env) nxt_line;
              ls1 \<leftarrow> py_set (lines s1) (cursor_row s1) (cur @ [32] @ nxt);
              ls2 \<leftarrow> py_pop ls1 (cursor_row s1 + 1);
              Some (s1\<lparr>cursor_col := int (length cur), lines := ls2\<rparr>) }))"

definition undo :: "editor \<Rightarrow> editor" where
  "undo s =
     (if undo_stack s = [] then s\<lparr>status_msg := ustr ''nothing to undo''\<rparr>
      else (case last (undo_stack s) of (ls, row, col) \<Rightarrow>
              s\<lparr>redo_stack := redo_stack s @ [(lines s, cursor_row s, cursor_col s)],
                undo_stack := butlast (undo_stack s),
                lines := ls, cursor_row := row, cursor_col := col,
                status_msg := ustr ''undone''\<rparr>))"

definition redo :: "editor \<Rightarrow> editor" where
  "redo s =
     (if redo_stack s = [] then s\<lparr>status_msg := ustr ''nothing to redo''\<rparr>
      else (case last (redo_stack s) of (ls, row, col) \<Rightarrow>
              s\<lparr>undo_stack := undo_stack s @ [(lines s, cursor_row s, cursor_col s)],
                redo_stack := butlast (redo_stack s),
                lines := ls, cursor_row := row, cursor_col := col,
                status_msg := ustr ''redone''\<rparr>))"

subsection \<open>JSON operations\<close>

text \<open>\<open>s.split()\<close>: the maximal runs of characters that are not whitespace.\<close>

function split_ws :: "(uchar \<Rightarrow> bool) \<Rightarrow> ustr \<Rightarrow> ustr list" where
  "split_ws sp s =
     (let t = dropWhile sp s in
      if t = [] then []
      else takeWhile (\<lambda>c. \<not> sp c) t # split_ws sp (dropWhile (\<lambda>c. \<not> sp c) t))"
  by pat_completeness auto
termination
proof (relation "measure (\<lambda>(sp, s). length s)")
  show "wf (measure (\<lambda>(sp, s). length s))" by simp
next
  fix sp :: "uchar \<Rightarrow> bool" and s t :: ustr
  assume t: "t = dropWhile sp s" and ne: "t \<noteq> []"
  have "length (dropWhile (\<lambda>c. \<not> sp c) t) < length t"
  proof (cases t)
    case Nil
    with ne show ?thesis by simp
  next
    case (Cons c cs)
    have "\<not> sp c" using t Cons hd_dropWhile [of sp s] by (metis list.sel(1) ne)
    with Cons show ?thesis by (simp add: le_imp_less_Suc length_dropWhile_le)
  qed
  also have "length t \<le> length s" using t by (simp add: length_dropWhile_le)
  finally show "((sp, dropWhile (\<lambda>c. \<not> sp c) t), (sp, s)) \<in> measure (\<lambda>(sp, s). length s)"
    by simp
qed

declare split_ws.simps [simp del]

text \<open>The loop of \<open>_split_jsonl_blocks\<close>; the state is \<open>blocks\<close> and \<open>current\<close>.\<close>

definition split_jsonl_blocks :: "'j pyenv \<Rightarrow> ustr \<Rightarrow> ustr list" where
  "split_jsonl_blocks env content =
     (case fold (\<lambda>line (blocks, current).
                   if strip (isspace env) line \<noteq> [] then (blocks, current @ [line])
                   else if current \<noteq> [] then (blocks @ [join newline current], [])
                   else (blocks, current))
             (split_lines content) ([], []) of
        (blocks, current) \<Rightarrow>
          if current \<noteq> [] then blocks @ [join newline current] else blocks)"

text \<open>
  \<open>_jsonl_to_pretty\<close> and \<open>_pretty_to_jsonl\<close>; the state of each loop is the list it
  appends to. Both catch JSONDecodeError only.
\<close>

definition jsonl_to_pretty :: "'j pyenv \<Rightarrow> ustr \<Rightarrow> ustr option" where
  "jsonl_to_pretty env content =
     map_option (join (newline @ newline))
       (for_loop (split_lines content)
          (\<lambda>line blocks.
             (let stripped = strip (isspace env) line in
              if stripped = [] then Some blocks
              else (case loads_dumps env True False stripped of
                      None \<Rightarrow> None
                    | Some (Inr formatted) \<Rightarrow> Some (blocks @ [formatted])
                    | Some (Inl e) \<Rightarrow> Some (blocks @ [stripped])))) [])"

definition pretty_to_jsonl :: "'j pyenv \<Rightarrow> ustr \<Rightarrow> ustr option" where
  "pretty_to_jsonl env content =
     map_option (join newline)
       (for_loop (split_jsonl_blocks env content)
          (\<lambda>block ls.
             (case loads_dumps env False False block of
                None \<Rightarrow> None
              | Some (Inr compact) \<Rightarrow> Some (ls @ [compact])
              | Some (Inl e) \<Rightarrow> Some (ls @ [join [32] (split_ws (isspace env) block)]))) [])"

text \<open>The loop of \<open>_jsonl_line_records\<close>; the state is \<open>result\<close>, \<open>record\<close> and \<open>in_block\<close>.\<close>

definition jsonl_line_records :: "'j pyenv \<Rightarrow> editor \<Rightarrow> int list" where
  "jsonl_line_records env s =
     fst (fold (\<lambda>line (result, rec, in_block).
                  if strip (isspace env) line \<noteq> []
                  then (if \<not> in_block then (result @ [rec + 1], rec + 1, True)
                        else (result @ [0], rec, in_block))
                  else (result @ [0], rec, False))
            (lines s) ([], 0, False))"

text \<open>
  The loop of \<open>_check_content\<close> over \<open>enumerate(blocks, 1)\<close>: it returns at the first
  block on which \<open>json.loads\<close> raises JSONDecodeError; any other exception of
  \<open>json.loads\<close> is not caught.
\<close>

fun check_blocks :: "'j pyenv \<Rightarrow> int \<Rightarrow> ustr list \<Rightarrow> (bool \<times> ustr) option" where
  "check_blocks env i [] = Some (True, [])"
| "check_blocks env i (block # blocks) =
     (case json_loads env block of
        Loaded v \<Rightarrow> check_blocks env (i + 1) blocks
      | JSONDecodeError msg lineno \<Rightarrow>
          Some (False, ustr ''JSONL error: record '' @ str_of_int i @ ustr '': '' @ msg)
      | ValueError \<Rightarrow> None
      | RecursionError \<Rightarrow> None)"

definition check_content :: "'j pyenv \<Rightarrow> editor \<Rightarrow> ustr \<Rightarrow> (bool \<times> ustr) option" where
  "check_content env s content =
     (if jsonl s then check_blocks env 1 (split_jsonl_blocks env content)
      else (case json_loads env content of
              Loaded v \<Rightarrow> Some (True, [])
            | JSONDecodeError msg lineno \<Rightarrow>
                Some (False, ustr ''JSON error: '' @ msg @ ustr '' (line '' @ str_of_int lineno
                               @ ustr '')'')
            | ValueError \<Rightarrow> None
            | RecursionError \<Rightarrow> None))"

text \<open>
  The loop of \<open>_format_jsonl\<close> over \<open>enumerate(blocks)\<close>; the state is \<open>formatted\<close>.
  \<open>Inl (i, msg)\<close> is the early return of the handler of JSONDecodeError at block \<open>i\<close>,
  \<open>Inr formatted\<close> the end of the loop, \<open>None\<close> an exception the handler does not
  catch.
\<close>

fun format_blocks ::
  "'j pyenv \<Rightarrow> int \<Rightarrow> ustr list \<Rightarrow> ustr list \<Rightarrow> ((int \<times> ustr) + ustr list) option" where
  "format_blocks env i [] formatted = Some (Inr formatted)"
| "format_blocks env i (block # blocks) formatted =
     (case loads_dumps env True False block of
        None \<Rightarrow> None
      | Some (Inl (msg, lineno)) \<Rightarrow> Some (Inl (i, msg))
      | Some (Inr out) \<Rightarrow> format_blocks env (i + 1) blocks (formatted @ [out]))"

definition format_jsonl :: "'j pyenv \<Rightarrow> editor \<Rightarrow> editor option" where
  "format_jsonl env s =
     (let content = get_content s; blocks = split_jsonl_blocks env content in
      case format_blocks env 0 blocks [] of
        None \<Rightarrow> None
      | Some (Inl (i, msg)) \<Rightarrow>
          Some (s\<lparr>status_msg := ustr ''cannot format: record '' @ str_of_int (i + 1) @ ustr '': ''
                     @ msg\<rparr>)
      | Some (Inr formatted) \<Rightarrow>
          (let s1 = save_undo s
           in Some (s1\<lparr>lines := split_lines (join (newline @ newline) formatted),
                       cursor_row := 0, cursor_col := 0, status_msg := ustr ''formatted''\<rparr>)))"

text \<open>
  \<open>_format_json\<close>: \<open>json.loads\<close> and \<open>json.dumps\<close> come first in the \<open>try\<close> block, whose
  handler catches JSONDecodeError only.
\<close>

definition format_editor_json :: "'j pyenv \<Rightarrow> editor \<Rightarrow> editor option" where
  "format_editor_json env s =
     (if jsonl s then format_jsonl env s
      else (let content = get_content s in
            case loads_dumps env True False content of
              None \<Rightarrow> None
            | Some (Inr formatted) \<Rightarrow>
                (let s1 = save_undo s in
                 Some (s1\<lparr>lines := split_lines formatted, cursor_row := 0, cursor_col := 0,
                          status_msg := ustr ''formatted''\<rparr>))
            | Some (Inl (msg, lineno)) \<Rightarrow>
                Some (s\<lparr>status_msg := ustr ''cannot format: '' @ msg @ ustr '' (line ''
                           @ str_of_int lineno @ ustr '')''\<rparr>)))"

text \<open>
  The loop of \<open>_find_string_at_cursor\<close> from index \<open>i\<close>: \<open>Some (Some (col_start,
  col_end, content))\<close>, or \<open>Some None\<close>, the function's own \<open>None\<close>; \<open>None\<close> is an
  exception of \<open>json.loads\<close> other than JSONDecodeError.
\<close>

function find_string_loop ::
  "'j pyenv \<Rightarrow> ustr \<Rightarrow> int \<Rightarrow> nat \<Rightarrow> bool \<Rightarrow> int \<Rightarrow> (int \<times> int \<times> 'j) option option" where
  "find_string_loop env line col i in_string string_start =
     (if i < length line
      then (if line ! i = 34 \<and> (i = 0 \<or> line ! (i - 1) \<noteq> 92)
            then (if \<not> in_string then find_string_loop env line col (i + 1) True (int i)
                  else if string_start \<le> col \<and> col \<le> int i
                  then (case json_loads env ([34] @ py_slice line (string_start + 1) (int i) @ [34]) of
                          Loaded content \<Rightarrow> Some (Some (string_start, int i + 1, content))
                        | JSONDecodeError msg lineno \<Rightarrow> Some None
                        | ValueError \<Rightarrow> None
                        | RecursionError \<Rightarrow> None)
                  else find_string_loop env line col (i + 1) False (- 1))
            else find_string_loop env line col (i + 1) in_string string_start)
      else Some None)"
  by pat_completeness auto
termination
  by (relation "measure (\<lambda>(env, line, col, i, in_string, string_start). length line - i)") auto

declare find_string_loop.simps [simp del]

definition find_string_at_cursor :: "'j pyenv \<Rightarrow> editor \<Rightarrow> (int \<times> int \<times> 'j) option option" where
  "find_string_at_cursor env s = do {
     line \<leftarrow> py_get (lines s) (cursor_row s);
     find_string_loop env line (cursor_col s) 0 False (- 1) }"

text \<open>
  \<open>_edit_embedded_json\<close>. \<open>json.loads(content)\<close> raises TypeError when the decoded
  value is no string; its handler catches JSONDecodeError only, and \<open>json.dumps\<close> is
  called outside the \<open>try\<close> block.
\<close>

definition edit_embedded_json :: "'j pyenv \<Rightarrow> editor \<Rightarrow> editor option" where
  "edit_embedded_json env s = do {
     result \<leftarrow> find_string_at_cursor env s;
     (case result of
        None \<Rightarrow> Some (s\<lparr>status_msg := ustr ''cursor not on a string value''\<rparr>)
      | Some (col_start, col_end, content) \<Rightarrow> do {
          text \<leftarrow> json_str_value env content;
          (case json_loads env text of
             JSONDecodeError msg lineno \<Rightarrow>
               Some (s\<lparr>status_msg := ustr ''string is not valid JSON''\<rparr>)
           | ValueError \<Rightarrow> None
           | RecursionError \<Rightarrow> None
           | Loaded parsed \<Rightarrow>
               if \<not> json_is_container env parsed
               then Some (s\<lparr>status_msg := ustr ''string is not a list or dict''\<rparr>)
               else do {
                 formatted \<leftarrow> json_dumps env True False parsed;
                 Some (post_message s
                         (EmbeddedEditRequested formatted (cursor_row s) col_start col_end)) }) }) }"

subsection \<open>Command mode\<close>

definition str_isdigit :: "'j pyenv \<Rightarrow> ustr \<Rightarrow> bool" where
  "str_isdigit env t = (t \<noteq> [] \<and> list_all (isdigit env) t)"

definition str_isprintable :: "'j pyenv \<Rightarrow> ustr \<Rightarrow> bool" where
  "str_isprintable env t = list_all (isprintable env) t"

text \<open>The index of the first element equal to \<open>num\<close>, counting from \<open>i\<close>.\<close>

fun first_index :: "int list \<Rightarrow> int \<Rightarrow> int \<Rightarrow> int option" where
  "first_index [] num i = None"
| "first_index (r # rs) num i = (if r = num then Some i else first_index rs num (i + 1))"

definition goto_line :: "editor \<Rightarrow> int \<Rightarrow> editor" where
  "goto_line s num =
     s\<lparr>cursor_row := max 0 (min (num - 1) (int (length (lines s)) - 1)), cursor_col := 0\<rparr>"

text \<open>\<open>cmd.split(None, 1)\<close>: the first word and the rest without its leading whitespace.\<close>

definition split_once :: "'j pyenv \<Rightarrow> ustr \<Rightarrow> ustr list" where
  "split_once env cmd =
     (let t = lstrip (isspace env) cmd in
      if t = [] then []
      else (let verb = takeWhile (\<lambda>c. \<not> isspace env c) t;
                rest = lstrip (isspace env) (dropWhile (\<lambda>c. \<not> isspace env c) t)
            in if rest = [] then [verb] else [verb, rest]))"

text \<open>The \<open>w\<close> and \<open>wq\<close>/\<open>x\<close> branches of \<open>_exec_command\<close> after the read-only check.\<close>

definition request_save :: "'j pyenv \<Rightarrow> editor \<Rightarrow> bool \<Rightarrow> ustr \<Rightarrow> bool \<Rightarrow> editor option" where
  "request_save env s force arg quit_after =
     (let content = get_content s in
      do {
        (valid, err) \<leftarrow> (if \<not> force then check_content env s content else Some (True, []));
        (if \<not> valid then Some (s\<lparr>status_msg := err\<rparr>)
         else do {
           save \<leftarrow> (if jsonl s then pretty_to_jsonl env content else Some content);
           Some (post_message s (FileSaveRequested save arg quit_after)) }) })"

definition exec_command :: "'j pyenv \<Rightarrow> editor \<Rightarrow> ustr \<Rightarrow> editor option" where
  "exec_command env s cmd =
     (let stripped = strip (isspace env) cmd in
      if stripped = ustr ''$''
      then Some (s\<lparr>cursor_row := int (length (lines s)) - 1, cursor_col := 0\<rparr>)
      else if length stripped > 1 \<and> hd stripped = 108 \<and> str_isdigit env (tl stripped)
      then do { num \<leftarrow> int_of_str env (tl stripped); Some (goto_line s num) }
      else if str_isdigit env stripped
              \<or> (length stripped > 1 \<and> hd stripped = 112 \<and> str_isdigit env (tl stripped))
      then do {
        num \<leftarrow> int_of_str env (if str_isdigit env stripped then stripped else tl stripped);
        (if jsonl s
         then (case first_index (jsonl_line_records env s) num 0 of
                 Some i \<Rightarrow> Some (s\<lparr>cursor_row := i, cursor_col := 0\<rparr>)
               | None \<Rightarrow> Some (s\<lparr>status_msg := ustr ''record '' @ str_of_int num
                                     @ ustr '' not found''\<rparr>))
         else Some (goto_line s num)) }
      else (let parts = split_once env cmd;
                verb0 = (if parts \<noteq> [] then hd parts else []);
                arg = (if length parts > 1 then parts ! 1 else []);
                force = (verb0 \<noteq> [] \<and> last verb0 = 33);
                verb = (if force then butlast verb0 else verb0)
            in if verb = ustr ''w''
               then (if read_only s then Some (s\<lparr>status_msg := ustr ''[readonly]''\<rparr>)
                     else request_save env s force arg False)
               else if verb = ustr ''q''
               then Some (post_message s (if force then ForceQuit else Quit))
               else if verb = ustr ''wq'' \<or> verb = ustr ''x''
               then (if read_only s then Some (post_message s Quit)
                     else request_save env s force arg True)
               else if verb = ustr ''e''
               then (if arg = [] then Some (s\<lparr>status_msg := ustr ''Usage: :e <file>''\<rparr>)
                     else Some (post_message s (FileOpenRequested arg)))
               else if verb = ustr ''fmt'' \<or> verb = ustr ''format''
               then (if read_only s then Some (s\<lparr>status_msg := ustr ''[readonly]''\<rparr>)
                     else format_editor_json env s)
               else if verb = ustr ''help''
               then Some (post_message s HelpToggleRequested)
               else Some (s\<lparr>status_msg := ustr ''unknown command: :'' @ cmd\<rparr>)))"

definition handle_command :: "'j pyenv \<Rightarrow> editor \<Rightarrow> key_event \<Rightarrow> editor option" where
  "handle_command env s ev =
     (if key ev = ustr ''escape''
      then Some (s\<lparr>mode := Normal, command_buffer := [], status_msg := []\<rparr>)
      else if key ev = ustr ''enter''
      then do {
        s1 \<leftarrow> exec_command env s (strip (isspace env) (command_buffer s));
        let s2 = (if mode s1 = Command then s1\<lparr>mode := Normal\<rparr> else s1);
        Some (s2\<lparr>command_buffer := []\<rparr>) }
      else if key ev = ustr ''backspace''
      then (if command_buffer s \<noteq> [] then Some (s\<lparr>command_buffer := butlast (command_buffer s)\<rparr>)
            else Some (s\<lparr>mode := Normal\<rparr>))
      else (case character ev of
              Some char \<Rightarrow>
                if char \<noteq> [] \<and> str_isprintable env char
                then Some (s\<lparr>command_buffer := command_buffer s @ char\<rparr>)
                else Some s
            | None \<Rightarrow> Some s))"

subsection \<open>Insert mode\<close>

definition ends_open :: "ustr \<Rightarrow> bool" where
  "ends_open t = (t \<noteq> [] \<and> is_open (last t))"

definition spaces :: "int \<Rightarrow> ustr" where
  "spaces n = replicate (nat n) 32"

definition insert_enter :: "'j pyenv \<Rightarrow> editor \<Rightarrow> editor option" where
  "insert_enter env s0 =
     (let s = save_undo s0 in
      do {
        line \<leftarrow> py_get (lines s) (cursor_row s);
        let indent = (if strip (isspace env) line \<noteq> [] then leading_ws env line else 0);
        let before = rstrip (isspace env) (slice_to line (cursor_col s));
        let after = lstrip (isspace env) (slice_from line (cursor_col s));
        (if ends_open before \<and> after \<noteq> [] \<and> is_close (hd after)
         then do {
           let closing_indent = spaces indent;
           let new_indent = spaces indent @ ustr ''    '';
           ls1 \<leftarrow> py_set (lines s) (cursor_row s) (slice_to line (cursor_col s));
           let ls2 = py_insert ls1 (cursor_row s + 1) new_indent;
           let ls3 = py_insert ls2 (cursor_row s + 2)
                       (closing_indent @ lstrip (isspace env) (slice_from line (cursor_col s)));
           Some (s\<lparr>lines := ls3, cursor_row := cursor_row s + 1,
                   cursor_col := int (length new_indent)\<rparr>) }
         else do {
           let extra = (if ends_open before then ustr ''    '' else []);
           ls1 \<leftarrow> py_set (lines s) (cursor_row s) (slice_to line (cursor_col s));
           let new_line = spaces indent @ extra @ slice_from line (cursor_col s);
           Some (s\<lparr>lines := py_insert ls1 (cursor_row s + 1) new_line,
                   cursor_row := cursor_row s + 1,
                   cursor_col := indent + int (length extra)\<rparr>) }) })"

text \<open>The last branch of \<open>_handle_insert\<close>: a printable character is inserted.\<close>

definition insert_printable :: "'j pyenv \<Rightarrow> editor \<Rightarrow> ustr option \<Rightarrow> editor option" where
  "insert_printable env s char =
     (case char of
        None \<Rightarrow> Some s
      | Some c \<Rightarrow>
          if c \<noteq> [] \<and> str_isprintable env c
          then (let s1 = save_undo s in
                do {
                  line \<leftarrow> py_get (lines s1) (cursor_row s1);
                  ls \<leftarrow> py_set (lines s1) (cursor_row s1)
                          (slice_to line (cursor_col s1) @ c @ slice_from line (cursor_col s1));
                  Some (s1\<lparr>lines := ls, cursor_col := cursor_col s1 + 1\<rparr>) })
          else Some s)"

definition handle_insert :: "'j pyenv \<Rightarrow> editor \<Rightarrow> key_event \<Rightarrow> editor option" where
  "handle_insert env s ev =
     (let k = key ev; char = character ev in
      if k = ustr ''escape''
      then Some ((dot_stop s)\<lparr>mode := Normal, cursor_col := max 0 (cursor_col s - 1),
                   status_msg := []\<rparr>)
      else if k = ustr ''backspace''
      then (let s1 = save_undo s in
            if cursor_col s1 > 0
            then do {
              line \<leftarrow> py_get (lines s1) (cursor_row s1);
              ls \<leftarrow> py_set (lines s1) (cursor_row s1)
                      (slice_to line (cursor_col s1 - 1) @ slice_from line (cursor_col s1));
              Some (s1\<lparr>lines := ls, cursor_col := cursor_col s1 - 1\<rparr>) }
            else if cursor_row s1 > 0
            then do {
              prev \<leftarrow> py_get (lines s1) (cursor_row s1 - 1);
              cur \<leftarrow> py_get (lines s1) (cursor_row s1);
              ls1 \<leftarrow> py_set (lines s1) (cursor_row s1 - 1) (prev @ cur);
              ls2 \<leftarrow> py_pop ls1 (cursor_row s1);
              Some (s1\<lparr>cursor_col := int (length prev), lines := ls2,
                      cursor_row := cursor_row s1 - 1\<rparr>) }
            else Some s1)
      else if k = ustr ''enter'' then insert_enter env s
      else if k = ustr ''tab''
      then (let s1 = save_undo s in
            do {
              line \<leftarrow> py_get (lines s1) (cursor_row s1);
              ls \<leftarrow> py_set (lines s1) (cursor_row s1)
                      (slice_to line (cursor_col s1) @ ustr ''    '' @ slice_from line (cursor_col s1));
              Some (s1\<lparr>lines := ls, cursor_col := cursor_col s1 + 4\<rparr>) })
      else if k = ustr ''end''
      then do {
        line \<leftarrow> py_get (lines s) (cursor_row s);
        Some (s\<lparr>cursor_col := int (length line)\<rparr>) }
      else if k = ustr ''home''
      then do {
        line \<leftarrow> py_get (lines s) (cursor_row s);
        Some (s\<lparr>cursor_col := leading_ws env line\<rparr>) }
      else if k = ustr ''left'' then Some (s\<lparr>cursor_col := cursor_col s - 1\<rparr>)
      else if k = ustr ''right'' then Some (s\<lparr>cursor_col := cursor_col s + 1\<rparr>)
      else if k = ustr ''up'' then Some (s\<lparr>cursor_row := cursor_row s - 1\<rparr>)
      else if k = ustr ''down'' then Some (s\<lparr>cursor_row := cursor_row s + 1\<rparr>)
      else if char = Some (ustr ''}'') \<or> char = Some (ustr '']'')
      then (let s1 = save_undo s in
            do {
              line \<leftarrow> py_get (lines s1) (cursor_row s1);
              let before = slice_to line (cursor_col s1);
              (if strip (isspace env) before = []
               then do {
                 let new_indent = max 0 (int (length before) - 4);
                 ls \<leftarrow> py_set (lines s1) (cursor_row s1)
                         (spaces new_indent @ the char @ slice_from line (cursor_col s1));
                 Some (s1\<lparr>lines := ls, cursor_col := new_indent + 1\<rparr>) }
               else insert_printable env s1 char) })
      else insert_printable env s char)"

subsection \<open>Pending two-character commands\<close>

definition handle_pending :: "'j pyenv \<Rightarrow> editor \<Rightarrow> ustr \<Rightarrow> ustr \<Rightarrow> editor option" where
  "handle_pending env s0 char k =
     (if k = ustr ''escape'' \<or> char = []
      then Some (dot_stop (s0\<lparr>pending := [], status_msg := []\<rparr>))
      else (let combo = pending s0 @ char; s = s0\<lparr>pending := []\<rparr> in
        if read_only s \<and> combo \<noteq> ustr ''yy'' \<and> combo \<noteq> ustr ''gg'' \<and> combo \<noteq> ustr ''ej''
        then Some (s\<lparr>status_msg := ustr ''[readonly]''\<rparr>)
        else if combo = ustr ''dd''
        then (let s1 = save_undo s in
              do {
                line \<leftarrow> py_get (lines s1) (cursor_row s1);
                s2 \<leftarrow> (if length (lines s1) > 1
                       then do {
                         ls \<leftarrow> py_pop (lines s1) (cursor_row s1);
                         Some (s1\<lparr>lines := ls,
                                  cursor_row := (if cursor_row s1 \<ge> int (length ls)
                                                 then int (length ls) - 1 else cursor_row s1)\<rparr>) }
                       else do {
                         ls \<leftarrow> py_set (lines s1) 0 [];
                         Some (s1\<lparr>lines := ls\<rparr>) });
                Some (dot_stop (s2\<lparr>yank_buffer := [line], cursor_col := 0,
                                  status_msg := ustr ''line deleted''\<rparr>)) })
        else if combo = ustr ''dw''
        then map_option dot_stop (delete_word env (save_undo s))
        else if combo = ustr ''d$''
        then (let s1 = save_undo s in
              do {
                line \<leftarrow> py_get (lines s1) (cursor_row s1);
                ls \<leftarrow> py_set (lines s1) (cursor_row s1) (slice_to line (cursor_col s1));
                Some (dot_stop (s1\<lparr>lines := ls\<rparr>)) })
        else if combo = ustr ''d0''
        then (let s1 = save_undo s in
              do {
                line \<leftarrow> py_get (lines s1) (cursor_row s1);
                ls \<leftarrow> py_set (lines s1) (cursor_row s1) (slice_from line (cursor_col s1));
                Some (dot_stop (s1\<lparr>lines := ls, cursor_col := 0\<rparr>)) })
        else if combo = ustr ''cw''
        then map_option enter_insert (delete_word env (save_undo s))
        else if combo = ustr ''cc''
        then (let s1 = save_undo s in
              do {
                indent \<leftarrow> current_indent env s1;
                line \<leftarrow> py_get (lines s1) (cursor_row s1);
                ls \<leftarrow> py_set (lines s1) (cursor_row s1) (spaces indent);
                Some (enter_insert (s1\<lparr>yank_buffer := [line], lines := ls, cursor_col := indent\<rparr>)) })
        else if combo = ustr ''yy''
        then do {
          line \<leftarrow> py_get (lines s) (cursor_row s);
          Some (s\<lparr>yank_buffer := [line], status_msg := ustr ''line yanked''\<rparr>) }
        else if combo = ustr ''gg''
        then Some (s\<lparr>cursor_row := 0, cursor_col := 0\<rparr>)
        else if length combo = 2 \<and> hd combo = 114
        then (let s1 = save_undo s in
              do {
                line \<leftarrow> py_get (lines s1) (cursor_row s1);
                ls \<leftarrow> (if cursor_col s1 < int (length line)
                       then py_set (lines s1) (cursor_row s1)
                              (slice_to line (cursor_col s1) @ [combo ! 1]
                                 @ slice_from line (cursor_col s1 + 1))
                       else Some (lines s1));
                Some (dot_stop (s1\<lparr>lines := ls\<rparr>)) })
        else if combo = ustr ''ej''
        then edit_embedded_json env s
        else Some ((dot_stop s)\<lparr>status_msg := ustr ''unknown: '' @ combo\<rparr>)))"

subsection \<open>Normal mode\<close>

definition mode_name :: "EditorMode \<Rightarrow> ustr" where
  "mode_name m = (case m of Normal \<Rightarrow> ustr ''NORMAL'' | Insert \<Rightarrow> ustr ''INSERT''
                  | Command \<Rightarrow> ustr ''COMMAND'')"

text \<open>The \<open>o\<close> and \<open>O\<close> branches of \<open>_handle_normal\<close> after the read-only check.\<close>

definition open_below :: "'j pyenv \<Rightarrow> editor \<Rightarrow> key_event \<Rightarrow> editor option" where
  "open_below env s ev =
     (let s1 = save_undo (dot_start s ev) in
      do {
        indent \<leftarrow> current_indent env s1;
        line \<leftarrow> py_get (lines s1) (cursor_row s1);
        let before = rstrip (isspace env) line;
        let extra = (if ends_open before then ustr ''    '' else []);
        let row = cursor_row s1 + 1;
        Some (enter_insert (s1\<lparr>cursor_row := row,
                lines := py_insert (lines s1) row (spaces indent @ extra),
                cursor_col := indent + int (length extra)\<rparr>)) })"

definition open_above :: "'j pyenv \<Rightarrow> editor \<Rightarrow> key_event \<Rightarrow> editor option" where
  "open_above env s ev =
     (let s1 = save_undo (dot_start s ev) in
      do {
        indent \<leftarrow> current_indent env s1;
        Some (enter_insert (s1\<lparr>lines := py_insert (lines s1) (cursor_row s1) (spaces indent),
                cursor_col := indent\<rparr>)) })"

text \<open>The \<open>x\<close> branch of \<open>_handle_normal\<close> after the read-only check.\<close>

definition delete_char :: "editor \<Rightarrow> key_event \<Rightarrow> editor option" where
  "delete_char s ev =
     (let s1 = save_undo (dot_stop (dot_start s ev)) in
      do {
        line \<leftarrow> py_get (lines s1) (cursor_row s1);
        (if line \<noteq> [] \<and> cursor_col s1 < int (length line)
         then do {
           ls \<leftarrow> py_set (lines s1) (cursor_row s1)
                   (slice_to line (cursor_col s1) @ slice_from line (cursor_col s1 + 1));
           Some (s1\<lparr>lines := ls\<rparr>) }
         else Some s1) })"

definition readonly_or :: "editor \<Rightarrow> editor option \<Rightarrow> editor option" where
  "readonly_or s act = (if read_only s then Some (s\<lparr>status_msg := ustr ''[readonly]''\<rparr>) else act)"

text \<open>
  \<open>_handle_normal\<close>; \<open>replay\<close> is \<open>self._dot_replay\<close>, which calls \<open>_handle_normal\<close>
  again.
\<close>

definition handle_normal_with ::
  "(editor \<Rightarrow> editor option) \<Rightarrow> 'j pyenv \<Rightarrow> editor \<Rightarrow> key_event \<Rightarrow> editor option" where
  "handle_normal_with replay env s ev =
     (let k = key ev; char = (case character ev of None \<Rightarrow> [] | Some c \<Rightarrow> c) in
      if pending s \<noteq> [] then handle_pending env s char k
      else if char = ustr ''h'' \<or> k = ustr ''left'' then Some (s\<lparr>cursor_col := cursor_col s - 1\<rparr>)
      else if char = ustr ''j'' \<or> k = ustr ''down'' then Some (s\<lparr>cursor_row := cursor_row s + 1\<rparr>)
      else if char = ustr ''k'' \<or> k = ustr ''up'' then Some (s\<lparr>cursor_row := cursor_row s - 1\<rparr>)
      else if char = ustr ''l'' \<or> k = ustr ''right'' then Some (s\<lparr>cursor_col := cursor_col s + 1\<rparr>)
      else if char = ustr ''w'' then move_word_forward env s
      else if char = ustr ''b'' then move_word_backward env s
      else if char = ustr ''0'' then Some (s\<lparr>cursor_col := 0\<rparr>)
      else if char = ustr ''$'' \<or> k = ustr ''end''
      then do {
        line \<leftarrow> py_get (lines s) (cursor_row s);
        Some (s\<lparr>cursor_col := max 0 (int (length line) - 1)\<rparr>) }
      else if char = ustr ''^'' \<or> k = ustr ''home''
      then do {
        line \<leftarrow> py_get (lines s) (cursor_row s);
        Some (s\<lparr>cursor_col := leading_ws env line\<rparr>) }
      else if char = ustr ''G'' then Some (s\<lparr>cursor_row := int (length (lines s)) - 1\<rparr>)
      else if char = ustr ''%'' then jump_matching_bracket s
      else if k = ustr ''pagedown'' \<or> k = ustr ''ctrl+f''
      then Some (s\<lparr>cursor_row := cursor_row s + visible_height s\<rparr>)
      else if k = ustr ''pageup'' \<or> k = ustr ''ctrl+b''
      then Some (s\<lparr>cursor_row := cursor_row s - visible_height s\<rparr>)
      else if k = ustr ''ctrl+d''
      then Some (s\<lparr>cursor_row := cursor_row s + visible_height s div 2\<rparr>)
      else if k = ustr ''ctrl+u''
      then Some (s\<lparr>cursor_row := cursor_row s - visible_height s div 2\<rparr>)
      else if k = ustr ''ctrl+e''
      then Some (s\<lparr>scroll_top := min (scroll_top s + 1) (int (length (lines s)) - 1)\<rparr>)
      else if k = ustr ''ctrl+y''
      then Some (s\<lparr>scroll_top := max (scroll_top s - 1) 0\<rparr>)
      else if k = ustr ''ctrl+g''
      then (let total_rows = int (length (lines s));
                pct = (if total_rows \<noteq> 0 then (cursor_row s + 1) * 100 div total_rows else 0)
            in Some (s\<lparr>status_msg := [34] @ mode_name (mode s) @ [34] @ ustr '' line ''
                       @ str_of_int (cursor_row s + 1) @ ustr '' of '' @ str_of_int total_rows
                       @ ustr '' --'' @ str_of_int pct @ ustr ''%--''\<rparr>))
      else if char = ustr ''i''
      then Some (enter_insert (if \<not> read_only s then dot_start s ev else s))
      else if char = ustr ''I''
      then (let s1 = (if \<not> read_only s then dot_start s ev else s) in
            do {
              line \<leftarrow> py_get (lines s1) (cursor_row s1);
              Some (enter_insert (s1\<lparr>cursor_col := leading_ws env line\<rparr>)) })
      else if char = ustr ''a''
      then (let s1 = (if \<not> read_only s then dot_start s ev else s) in
            Some (enter_insert (s1\<lparr>cursor_col := cursor_col s1 + 1\<rparr>)))
      else if char = ustr ''A''
      then (let s1 = (if \<not> read_only s then dot_start s ev else s) in
            do {
              line \<leftarrow> py_get (lines s1) (cursor_row s1);
              Some (enter_insert (s1\<lparr>cursor_col := int (length line)\<rparr>)) })
      else if char = ustr ''o'' then readonly_or s (open_below env s ev)
      else if char = ustr ''O'' then readonly_or s (open_above env s ev)
      else if char = ustr ''x'' then readonly_or s (delete_char s ev)
      else if char = ustr ''p''
      then readonly_or s (Some (paste_after (dot_stop (dot_start s ev))))
      else if char = ustr ''P''
      then readonly_or s (Some (paste_before (dot_stop (dot_start s ev))))
      else if char = ustr ''u'' then readonly_or s (Some (undo s))
      else if k = ustr ''ctrl+r'' then readonly_or s (Some (redo s))
      else if char = ustr ''J''
      then readonly_or s (join_lines env (dot_stop (dot_start s ev)))
      else if char = ustr ''.''
      then (if \<not> read_only s then replay s else Some s)
      else if char = ustr ''d'' \<or> char = ustr ''c'' \<or> char = ustr ''y'' \<or> char = ustr ''r''
              \<or> char = ustr ''g'' \<or> char = ustr ''e''
      then (let free = (char = ustr ''y'' \<or> char = ustr ''g'' \<or> char = ustr ''e'') in
            if read_only s \<and> \<not> free then Some (s\<lparr>status_msg := ustr ''[readonly]''\<rparr>)
            else Some ((if \<not> free then dot_start s ev else s)\<lparr>pending := char\<rparr>))
      else if char = ustr '':''
      then Some (s\<lparr>mode := Command, command_buffer := [], status_msg := []\<rparr>)
      else Some s)"

subsection \<open>Dot repeat and the key handler\<close>

text \<open>
  \<open>_dot_replay\<close> and \<open>_handle_normal\<close> call each other; \<open>depth\<close> is the number of
  nested replays the interpreter's stack still has room for, and RecursionError is
  raised when it is used up. The loop runs over the list \<open>_dot_buffer\<close> names when the
  replay starts.
\<close>

primrec dot_replay :: "nat \<Rightarrow> 'j pyenv \<Rightarrow> editor \<Rightarrow> editor option" where
  "dot_replay 0 env s = None"
| "dot_replay (Suc depth) env s =
     (if dot_buffer s = [] then Some s
      else do {
        s1 \<leftarrow> for_loop (dot_buffer s)
          (\<lambda>(rkey, rchar) s. do {
             s' \<leftarrow> (case mode s of
                      Normal \<Rightarrow> handle_normal_with (dot_replay depth env) env s
                                  \<lparr>key = rkey, character = rchar\<rparr>
                    | Insert \<Rightarrow> handle_insert env s \<lparr>key = rkey, character = rchar\<rparr>
                    | Command \<Rightarrow> Some s);
             clamp_cursor s' })
          (s\<lparr>dot_replaying := True\<rparr>);
        Some (s1\<lparr>dot_replaying := False\<rparr>) })"

definition handle_normal :: "nat \<Rightarrow> 'j pyenv \<Rightarrow> editor \<Rightarrow> key_event \<Rightarrow> editor option" where
  "handle_normal depth env s ev = handle_normal_with (dot_replay depth env) env s ev"

text \<open>The first statement of \<open>on_key\<close>: the event is added to a running recording.\<close>

definition dot_append :: "editor \<Rightarrow> key_event \<Rightarrow> editor" where
  "dot_append s ev =
     (if \<not> dot_replaying s \<and> dot_recording s
      then s\<lparr>dot_buffer := dot_buffer s @ [(key ev, character ev)]\<rparr> else s)"

definition on_key :: "nat \<Rightarrow> 'j pyenv \<Rightarrow> editor \<Rightarrow> key_event \<Rightarrow> editor option" where
  "on_key depth env s ev =
     (let s1 = dot_append s ev
      in do {
        s2 \<leftarrow> (case mode s1 of
                 Normal \<Rightarrow> handle_normal depth env s1 ev
               | Insert \<Rightarrow> handle_insert env s1 ev
               | Command \<Rightarrow> handle_command env s1 ev);
        clamp_cursor s2 })"

text \<open>A sequence of key events, one \<open>on_key\<close> after the other.\<close>

fun on_keys :: "nat \<Rightarrow> 'j pyenv \<Rightarrow> editor \<Rightarrow> key_event list \<Rightarrow> editor option" where
  "on_keys depth env s [] = Some s"
| "on_keys depth env s (ev # evs) =
     (case on_key depth env s ev of None \<Rightarrow> None | Some s' \<Rightarrow> on_keys depth env s' evs)"

subsection \<open>Construction and the public API\<close>

text \<open>
  The first statements of \<open>__init__\<close> and of \<open>set_content\<close>: the lines of the buffer
  for a content. \<open>_jsonl_to_pretty\<close> may raise.
\<close>

definition initial_lines :: "'j pyenv \<Rightarrow> bool \<Rightarrow> ustr \<Rightarrow> ustr list option" where
  "initial_lines env jl content0 = do {
     content \<leftarrow> (if jl \<and> content0 \<noteq> [] then jsonl_to_pretty env content0 else Some content0);
     Some (if content \<noteq> [] then split_lines content else [[]]) }"

text \<open>The fields \<open>__init__\<close> sets, for the lines of the buffer.\<close>

definition new_editor :: "ustr list \<Rightarrow> bool \<Rightarrow> bool \<Rightarrow> int \<Rightarrow> editor" where
  "new_editor ls ro jl height =
     \<lparr>read_only = ro, jsonl = jl, lines = ls,
      cursor_row = 0, cursor_col = 0, mode = Normal, command_buffer = [], pending = [],
      status_msg = [], undo_stack = [], redo_stack = [], yank_buffer = [], scroll_top = 0,
      dot_buffer = [], dot_recording = False, dot_replaying = False,
      region_height = height, outbox = []\<rparr>"

definition init_editor :: "'j pyenv \<Rightarrow> ustr \<Rightarrow> bool \<Rightarrow> bool \<Rightarrow> int \<Rightarrow> editor option" where
  "init_editor env initial_content ro jl height = do {
     ls \<leftarrow> initial_lines env jl initial_content;
     Some (new_editor ls ro jl height) }"



section \<open>Layout engine (editor.py, \<open>_char_width\<close>, \<open>_make_segments\<close>, \<open>_wrap_rows\<close>)\<close>

text \<open>
  \<open>unicodedata.east_asian_width(ch) in ("W", "F")\<close> is a table of the Python library;
  it is the parameter \<open>wide\<close>.
\<close>

definition char_width :: "(uchar \<Rightarrow> bool) \<Rightarrow> uchar \<Rightarrow> int" where
  "char_width wide ch = (if ch < 0x100 then 1 else if wide ch then 2 else 1)"

text \<open>The loop of \<open>_make_segments\<close> over \<open>enumerate(line)\<close>; \<open>i\<close> is the index of the next character.\<close>

fun segments_loop ::
  "(uchar \<Rightarrow> bool) \<Rightarrow> int \<Rightarrow> int \<Rightarrow> ustr \<Rightarrow> (int \<times> int) list \<Rightarrow> int \<Rightarrow> int \<Rightarrow> (int \<times> int) list \<times> int"
where
  "segments_loop wide avail i [] segs seg_start w = (segs, seg_start)"
| "segments_loop wide avail i (ch # rest) segs seg_start w =
     (let cw = char_width wide ch in
      if w + cw > avail \<and> i > seg_start
      then segments_loop wide avail (i + 1) rest (segs @ [(seg_start, i)]) i cw
      else segments_loop wide avail (i + 1) rest segs seg_start (w + cw))"

definition make_segments :: "(uchar \<Rightarrow> bool) \<Rightarrow> ustr \<Rightarrow> int \<Rightarrow> (int \<times> int) list option" where
  "make_segments wide line avail =
     (if line = [] then Some [(0, 0)]
      else if isascii line then
        (if avail = 0 then None
         else Some (map (\<lambda>s. (s, min (s + avail) (int (length line))))
                        (range_step 0 (int (length line)) avail)))
      else (case segments_loop wide avail 0 line [] 0 0 of
              (segs, seg_start) \<Rightarrow> Some (segs @ [(seg_start, int (length line))])))"

text \<open>The loop of \<open>_wrap_rows\<close>.\<close>

fun rows_loop :: "(uchar \<Rightarrow> bool) \<Rightarrow> int \<Rightarrow> ustr \<Rightarrow> int \<Rightarrow> int \<Rightarrow> int" where
  "rows_loop wide avail [] rows w = rows"
| "rows_loop wide avail (ch # rest) rows w =
     (let cw = char_width wide ch in
      if w + cw > avail
      then rows_loop wide avail rest (rows + 1) cw
      else rows_loop wide avail rest rows (w + cw))"

definition wrap_rows :: "(uchar \<Rightarrow> bool) \<Rightarrow> ustr \<Rightarrow> int \<Rightarrow> int option" where
  "wrap_rows wide line avail =
     (if line = [] then Some 1
      else if isascii line then
        (if avail = 0 then None else Some (- ((- int (length line)) div avail)))
      else Some (rows_loop wide avail line 1 0))"

text \<open>
  The CJK unified ideographs U+4E00..U+9FFF have East Asian width W; this is the part of
  the width table the concrete inputs below use.
\<close>

definition cjk_unified :: "uchar \<Rightarrow> bool" where
  "cjk_unified c = (0x4E00 \<le> c \<and> c \<le> 0x9FFF)"

text \<open>
  The segments are contiguous from column \<open>a\<close> to column \<open>b\<close>: each starts where the
  one before it ends.
\<close>

fun chain :: "(int \<times> int) list \<Rightarrow> int \<Rightarrow> int \<Rightarrow> bool" where
  "chain [] a b = (a = b)"
| "chain ((s, e) # segs) a b = (s = a \<and> chain segs e b)"

definition tiles :: "(int \<times> int) list \<Rightarrow> int \<Rightarrow> int \<Rightarrow> bool" where
  "tiles segs a b = (segs \<noteq> [] \<and> chain segs a b)"

section \<open>Properties stated below\<close>

text \<open>The event of typing a printable character, and the event of a named key.\<close>

definition char_key :: "string \<Rightarrow> key_event" where
  "char_key c = \<lparr>key = ustr c, character = Some (ustr c)\<rparr>"

definition named_key :: "string \<Rightarrow> key_event" where
  "named_key k = \<lparr>key = ustr k, character = None\<rparr>"

text \<open>The line under the cursor, for a cursor row inside the buffer.\<close>

definition cur_line :: "editor \<Rightarrow> ustr" where
  "cur_line s = lines s ! nat (cursor_row s)"

definition row_ok :: "editor \<Rightarrow> bool" where
  "row_ok s = (0 \<le> cursor_row s \<and> cursor_row s < int (length (lines s)))"

text \<open>
  The cursor invariant: the row is inside the buffer, the column inside the line or at
  its end, and in Normal mode on a character of a non-empty line.
\<close>

definition cursor_inv :: "editor \<Rightarrow> bool" where
  "cursor_inv s =
     (row_ok s \<and> 0 \<le> cursor_col s \<and> cursor_col s \<le> int (length (cur_line s))
      \<and> (mode s = Normal \<and> cur_line s \<noteq> [] \<longrightarrow> cursor_col s \<le> int (length (cur_line s)) - 1))"

text \<open>The row and the column \<open>_clamp_cursor\<close> computes.\<close>

definition clamp_row :: "editor \<Rightarrow> int" where
  "clamp_row s = max 0 (min (cursor_row s) (int (length (lines s)) - 1))"

definition clamp_col :: "editor \<Rightarrow> int" where
  "clamp_col s =
     (let n = int (length (lines s ! nat (clamp_row s))) in
      max 0 (min (cursor_col s)
        (if mode s = Normal then (if n \<noteq> 0 then max 0 (n - 1) else 0) else n)))"

text \<open>Normal mode with no pending prefix, in a session that is not read-only.\<close>

text \<open>The buffer and the cursor of \<open>s'\<close> are those of \<open>s\<close>.\<close>

definition same_text :: "editor \<Rightarrow> editor \<Rightarrow> bool" where
  "same_text s s' =
     (lines s' = lines s \<and> cursor_row s' = cursor_row s \<and> cursor_col s' = cursor_col s)"

text \<open>The buffer after \<open>dd\<close>.\<close>

definition dd_lines :: "editor \<Rightarrow> ustr list" where
  "dd_lines s =
     (if length (lines s) > 1
      then take (nat (cursor_row s)) (lines s) @ drop (Suc (nat (cursor_row s))) (lines s)
      else [[]])"

definition normal_ready :: "editor \<Rightarrow> bool" where
  "normal_ready s = (mode s = Normal \<and> pending s = [] \<and> \<not> read_only s)"

text \<open>
  An instance of the Python library for the concrete runs below: the ASCII part of the
  Unicode tables, decimal \<open>int\<close>, a small JSON reader, and a matcher that compares the
  two sequences as wholes. The reader accepts the documents \<open>{}\<close>, \<open>[]\<close> and the
  unsigned integer literals, between JSON whitespace, and writes them back unchanged;
  like \<open>int\<close>, it raises ValueError on a literal of more than 4300 digits (the default
  of \<open>sys.set_int_max_str_digits\<close>); every other text is reported as a
  JSONDecodeError with the one message \<open>Expecting value\<close>.
\<close>

definition whole_opcodes :: "ustr list \<Rightarrow> ustr list \<Rightarrow> opcode list" where
  "whole_opcodes a b =
     (if a = [] \<and> b = [] then []
      else if a = b then [(OpEqual, 0, int (length a), 0, int (length b))]
      else if a = [] then [(OpInsert, 0, 0, 0, int (length b))]
      else if b = [] then [(OpDelete, 0, int (length a), 0, 0)]
      else [(OpReplace, 0, int (length a), 0, int (length b))])"

definition ascii_space :: "uchar \<Rightarrow> bool" where
  "ascii_space c = (c = 32 \<or> (9 \<le> c \<and> c \<le> 13) \<or> (28 \<le> c \<and> c \<le> 31))"

definition ascii_digit :: "uchar \<Rightarrow> bool" where
  "ascii_digit c = (48 \<le> c \<and> c \<le> 57)"

definition ascii_alnum :: "uchar \<Rightarrow> bool" where
  "ascii_alnum c = (ascii_digit c \<or> (65 \<le> c \<and> c \<le> 90) \<or> (97 \<le> c \<and> c \<le> 122))"

definition json_space :: "uchar \<Rightarrow> bool" where
  "json_space c = (c = 32 \<or> c = 9 \<or> c = 10 \<or> c = 13)"

definition int_literal :: "ustr \<Rightarrow> bool" where
  "int_literal t = (t \<noteq> [] \<and> list_all ascii_digit t \<and> (length t = 1 \<or> hd t \<noteq> 48))"

definition small_loads :: "ustr \<Rightarrow> ustr loaded" where
  "small_loads t =
     (let u = strip json_space t in
      if u = ustr ''{}'' \<or> u = ustr ''[]'' then Loaded u
      else if int_literal u then (if length u > 4300 then ValueError else Loaded u)
      else JSONDecodeError (ustr ''Expecting value'') 1)"

definition ascii_env :: "ustr pyenv" where
  "ascii_env =
     \<lparr>east_asian_wide = cjk_unified,
      isspace = ascii_space,
      isalnum = ascii_alnum,
      isprintable = (\<lambda>c. 32 \<le> c \<and> c < 127),
      isdigit = ascii_digit,
      int_of_str = (\<lambda>t. if t \<noteq> [] \<and> list_all ascii_digit t \<and> length t \<le> 4300
                         then Some (fold (\<lambda>c n. 10 * n + (int c - 48)) t 0) else None),
      json_loads = small_loads,
      json_dumps = (\<lambda>indent sort_keys v. Some v),
      json_dumps_str = (\<lambda>t. [34] @ t @ [34]),
      json_str_value = (\<lambda>v. None),
      json_is_container = (\<lambda>v. v = ustr ''{}'' \<or> v = ustr ''[]''),
      get_opcodes = whole_opcodes\<rparr>"

text \<open>
  The editor \<open>JsonEditor(content)\<close> constructs, in a region of 24 rows: not read-only
  and not JSONL, so that the constructor calls nothing of the library but \<open>split\<close>.
\<close>

definition fresh_editor :: "ustr \<Rightarrow> editor" where
  "fresh_editor content =
     new_editor (if content \<noteq> [] then split_lines content else [[]]) False False 24"

text \<open>
  The indentation \<open>_current_indent\<close> computes for a line, and the extra indent of the
  \<open>o\<close> command: four spaces when the line, without its trailing whitespace, ends with
  an open bracket.
\<close>

definition indent_of :: "'j pyenv \<Rightarrow> ustr \<Rightarrow> int" where
  "indent_of env line = (if strip (isspace env) line \<noteq> [] then leading_ws env line else 0)"

definition extra_of :: "'j pyenv \<Rightarrow> ustr \<Rightarrow> ustr" where
  "extra_of env line = (if ends_open (rstrip (isspace env) line) then ustr ''    '' else [])"

text \<open>
  The serialization with \<open>indent=4\<close> of what \<open>json.loads\<close> returns for a text, when
  both calls return, and that of the buffer (for JSONL the blocks' serializations, an
  empty line between them). A parse failure is a JSONDecodeError of \<open>json.loads\<close>:
  on the buffer, or for JSONL on the first block that has no serialization.
\<close>

definition serialized :: "'j pyenv \<Rightarrow> ustr \<Rightarrow> ustr option" where
  "serialized env t =
     (case json_loads env t of Loaded v \<Rightarrow> json_dumps env True False v | _ \<Rightarrow> None)"

definition serialization :: "'j pyenv \<Rightarrow> editor \<Rightarrow> ustr option" where
  "serialization env s =
     (if jsonl s
      then map_option (join (newline @ newline))
             (those (map (serialized env) (split_jsonl_blocks env (get_content s))))
      else serialized env (get_content s))"

definition decode_error :: "'j pyenv \<Rightarrow> ustr \<Rightarrow> bool" where
  "decode_error env t =
     (case json_loads env t of JSONDecodeError msg lineno \<Rightarrow> True | _ \<Rightarrow> False)"

definition parse_failure :: "'j pyenv \<Rightarrow> editor \<Rightarrow> bool" where
  "parse_failure env s =
     (if jsonl s
      then (case dropWhile (\<lambda>block. serialized env block \<noteq> None)
                   (split_jsonl_blocks env (get_content s)) of
              [] \<Rightarrow> False
            | block # blocks \<Rightarrow> decode_error env block)
      else decode_error env (get_content s))"

text \<open>A line of 4301 digits, and the keys that type the command \<open>:fmt\<close> and run it.\<close>

definition long_number :: ustr where
  "long_number = replicate 4301 49"

definition fmt_keys :: "key_event list" where
  "fmt_keys = [\<lparr>key = ustr ''colon'', character = Some (ustr '':'')\<rparr>, char_key ''f'',
               char_key ''m'', char_key ''t'']"

definition cannot_format :: "ustr \<Rightarrow> bool" where
  "cannot_format msg = (take 15 msg = ustr ''cannot format: '')"

definition current_snapshot :: "editor \<Rightarrow> snapshot" where
  "current_snapshot s = (lines s, cursor_row s, cursor_col s)"

text \<open>
  The Normal-mode edits that are complete in Normal mode, the keys that invoke them, and
  when they change the buffer: a paste needs a yank buffer that is not empty, a join a
  line below the cursor.
\<close>

datatype edit_op =
    DeleteChar | PasteAfter | PasteBefore | JoinLines
  | DeleteLine | DeleteWord | DeleteToEnd | DeleteToStart | ReplaceChar uchar

fun op_keys :: "edit_op \<Rightarrow> key_event list" where
  "op_keys DeleteChar = [char_key ''x'']"
| "op_keys PasteAfter = [char_key ''p'']"
| "op_keys PasteBefore = [char_key ''P'']"
| "op_keys JoinLines = [char_key ''J'']"
| "op_keys DeleteLine = [char_key ''d'', char_key ''d'']"
| "op_keys DeleteWord = [char_key ''d'', char_key ''w'']"
| "op_keys DeleteToEnd = [char_key ''d'', char_key ''$'']"
| "op_keys DeleteToStart = [char_key ''d'', char_key ''0'']"
| "op_keys (ReplaceChar c) = [char_key ''r'', \<lparr>key = [c], character = Some [c]\<rparr>]"

fun op_mutates :: "editor \<Rightarrow> edit_op \<Rightarrow> bool" where
  "op_mutates s PasteAfter = (yank_buffer s \<noteq> [])"
| "op_mutates s PasteBefore = (yank_buffer s \<noteq> [])"
| "op_mutates s JoinLines = (cursor_row s < int (length (lines s)) - 1)"
| "op_mutates s other = True"

text \<open>The undo and redo stacks together hold at most 200 snapshots.\<close>

definition bounded :: "snapshot list \<Rightarrow> snapshot list \<Rightarrow> bool" where
  "bounded u r = (length u + length r \<le> 200)"

definition stacks_ok :: "editor \<Rightarrow> bool" where
  "stacks_ok s = bounded (undo_stack s) (redo_stack s)"



text \<open>The four sequences of a diff result have one length.\<close>

definition aligned :: "DiffResult \<Rightarrow> bool" where
  "aligned r =
     (length (left_lines r) = length (right_lines r)
      \<and> length (right_lines r) = length (left_line_tags r)
      \<and> length (left_line_tags r) = length (right_line_tags r))"

text \<open>
  The test of \<open>_compute_line_diff\<close>: both sides have block structure, at one
  indentation. The lines a side of a non-JSONL diff is compared by are those of its
  formatted text.
\<close>

definition block_structure :: "'j pyenv \<Rightarrow> ustr list \<Rightarrow> ustr list \<Rightarrow> bool" where
  "block_structure env ls rs =
     (case (detect_blocks env ls, detect_blocks env rs) of
        (Some (left_indent, left_blocks), Some (right_indent, right_blocks)) \<Rightarrow>
          left_indent = right_indent
      | _ \<Rightarrow> False)"

definition formatted_lines :: "'j pyenv \<Rightarrow> bool \<Rightarrow> ustr \<Rightarrow> ustr list option" where
  "formatted_lines env normalize_flag content =
     map_option split_lines
       ((if normalize_flag then normalize_json env else format_json env) content)"

text \<open>
  The result that is one REPLACE hunk spanning all lines of both sides: every row is
  tagged REPLACE, and the shorter side is padded with empty lines.
\<close>

definition padded :: "nat \<Rightarrow> ustr list \<Rightarrow> ustr list" where
  "padded n ls = ls @ replicate (n - length ls) []"

definition full_replace :: "ustr list \<Rightarrow> ustr list \<Rightarrow> DiffResult" where
  "full_replace ls rs =
     (let n = max (length ls) (length rs) in
      \<lparr>left_lines = padded n ls, right_lines = padded n rs,
       left_line_tags = replicate n REPLACE, right_line_tags = replicate n REPLACE,
       hunks = [mk_hunk 0 (int n) REPLACE]\<rparr>)"

text \<open>
  Two large inputs that are no JSON documents, so that formatting returns them as they
  are: 25001 lines that each hold an open brace, and 50001 empty lines.
\<close>

definition brace_text :: ustr where
  "brace_text = join newline (replicate 25001 (ustr ''{''))"

definition blank_text :: ustr where
  "blank_text = replicate 50000 10"

(*DEFS-END*)

section \<open>Verification: layout engine\<close>

lemma range_step_shift:
  "0 < step \<Longrightarrow> (s + step - stop) div step = (s - stop) div step + (1::int)"
proof -
  assume a: "0 < step"
  have "s + step - stop = (s - stop) + step" by simp
  then show ?thesis using a by (simp only: div_add_self2)
qed

lemma range_step_length:
  "0 < a \<Longrightarrow> length (range_step s n a) = nat (- ((s - n) div a))"
proof (induction s n a rule: range_step.induct)
  case (1 s stop step)
  show ?case
  proof (cases "s < stop")
    case True
    with 1 have IH: "length (range_step (s + step) stop step) = nat (- ((s + step - stop) div step))"
      by simp
    have lt: "(s - stop) div step < 0"
      using True 1(2) by (simp add: pos_imp_zdiv_neg_iff)
    have "length (range_step s stop step) = Suc (length (range_step (s + step) stop step))"
      using True 1(2) by (subst range_step.simps) simp
    also have "\<dots> = Suc (nat (- ((s - stop) div step + 1)))"
      using IH range_step_shift [OF 1(2), of s stop] by simp
    also have "\<dots> = nat (- ((s - stop) div step))"
      using lt by linarith
    finally show ?thesis .
  next
    case False
    then have "0 \<le> (s - stop) div step" using 1(2) by (simp add: pos_imp_zdiv_nonneg_iff)
    then show ?thesis using False by (subst range_step.simps) simp
  qed
qed

lemma loops_agree:
  "seg_start < i \<Longrightarrow>
   rows_loop wide avail rest rows w =
   rows + (int (length (fst (segments_loop wide avail i rest segs seg_start w))) - int (length segs))"
proof (induction rest arbitrary: i segs seg_start w rows)
  case Nil
  then show ?case by simp
next
  case (Cons ch rest)
  let ?cw = "char_width wide ch"
  show ?case
  proof (cases "w + ?cw > avail")
    case True
    have "i < i + 1" by simp
    from Cons.IH [OF this, of "rows + 1" ?cw "segs @ [(seg_start, i)]"] True Cons.prems
    show ?thesis by (simp add: Let_def)
  next
    case False
    from Cons.prems have "seg_start < i + 1" by simp
    from Cons.IH [OF this, of rows "w + ?cw" segs] False
    show ?thesis by (simp add: Let_def)
  qed
qed

lemma wrap_rows_ascii:
  assumes "0 < avail" "line \<noteq> []" "isascii line"
  shows "wrap_rows wide line avail =
         map_option (\<lambda>segs. int (length segs)) (make_segments wide line avail)"
proof -
  have "(- int (length line)) div avail < 0" using assms by (simp add: pos_imp_zdiv_neg_iff)
  then show ?thesis using assms
    by (simp add: wrap_rows_def make_segments_def range_step_length)
qed

lemma char_width_cases: "char_width wide c = 1 \<or> char_width wide c = 2"
  by (simp add: char_width_def)

lemma wrap_rows_unicode:
  assumes "1 \<le> avail" "\<not> isascii (c # cs)"
  shows "wrap_rows wide (c # cs) avail =
         map_option (\<lambda>segs. int (length segs) + (if avail = 1 \<and> char_width wide c = 2 then 1 else 0))
           (make_segments wide (c # cs) avail)"
proof (cases "avail = 1 \<and> char_width wide c = 2")
  case True
  have "(0::int) < 1" by simp
  from loops_agree [OF this, of wide avail cs 2 "char_width wide c" "[]"] True assms(2)
  show ?thesis
    by (simp add: wrap_rows_def make_segments_def Let_def split: prod.splits)
next
  case False
  then have le: "char_width wide c \<le> avail"
    using assms(1) char_width_cases [of wide c] by auto
  have "(0::int) < 1" by simp
  from loops_agree [OF this, of wide avail cs 1 "char_width wide c" "[]"] False assms(2) le
  show ?thesis
    by (simp add: wrap_rows_def make_segments_def Let_def split: prod.splits)
qed

lemma wrap_rows_segments_count:
  assumes "1 \<le> avail"
  shows "wrap_rows wide line avail =
         map_option (\<lambda>segs. int (length segs) +
             (if avail = 1 \<and> \<not> isascii line \<and> char_width wide (hd line) = 2 then 1 else 0))
           (make_segments wide line avail)"
proof (cases line)
  case Nil
  then show ?thesis by (simp add: wrap_rows_def make_segments_def isascii_def)
next
  case (Cons c cs)
  show ?thesis
  proof (cases "isascii line")
    case True
    with wrap_rows_ascii [of avail line wide] assms Cons show ?thesis by simp
  next
    case False
    with wrap_rows_unicode [of avail c cs wide] assms Cons show ?thesis by simp
  qed
qed

text \<open>
  C10. The claim: for every line and every \<open>avail \<ge> 1\<close>, \<open>_wrap_rows(line, avail)\<close>
  is the number of segments of \<open>_make_segments(line, avail)\<close>. The two differ when
  \<open>avail = 1\<close> and the line starts with a wide character (lemma
  \<open>wrap_rows_segments_count\<close> gives the exact difference): \<open>_make_segments\<close> keeps the
  first character on the first row (\<open>i > seg_start\<close>), \<open>_wrap_rows\<close> has no such guard
  and counts an empty row before it. For the line of the one ideograph U+4E2D and
  \<open>avail = 1\<close>, \<open>_wrap_rows\<close> returns 2 and \<open>_make_segments\<close> the one segment (0, 1).
\<close>

theorem wrap_rows_wide_first_char:
  "wrap_rows cjk_unified [0x4E2D] 1 = Some 2 \<and>
   make_segments cjk_unified [0x4E2D] 1 = Some [(0, 1)]"
  by (simp add: wrap_rows_def make_segments_def isascii_def char_width_def cjk_unified_def)

section \<open>Verification: modal engine\<close>

subsection \<open>Indexing inside the list, the clamp, and the fields the helpers keep\<close>

lemma py_index_nat [simp]: "0 \<le> i \<Longrightarrow> i < int (length xs) \<Longrightarrow> py_index xs i = Some (nat i)"
  by (simp add: py_index_def)

lemma py_get_nat [simp]: "0 \<le> i \<Longrightarrow> i < int (length xs) \<Longrightarrow> py_get xs i = Some (xs ! nat i)"
  by (simp add: py_get_def)

lemma py_set_nat [simp]: "0 \<le> i \<Longrightarrow> i < int (length xs) \<Longrightarrow> py_set xs i v = Some (xs[nat i := v])"
  by (simp add: py_set_def)

lemma py_pop_nat [simp]:
  "0 \<le> i \<Longrightarrow> i < int (length xs) \<Longrightarrow> py_pop xs i = Some (take (nat i) xs @ drop (Suc (nat i)) xs)"
  by (simp add: py_pop_def)

lemma clamp_row_range: "lines s \<noteq> [] \<Longrightarrow> 0 \<le> clamp_row s \<and> clamp_row s < int (length (lines s))"
  by (cases "lines s") (simp_all add: clamp_row_def)

lemma clamp_row_id: "row_ok s \<Longrightarrow> clamp_row s = cursor_row s"
  by (simp add: clamp_row_def row_ok_def)

lemma clamp_cursor_eq:
  assumes "lines s \<noteq> []"
  shows "clamp_cursor s = Some (s\<lparr>cursor_row := clamp_row s, cursor_col := clamp_col s\<rparr>)"
proof -
  from clamp_row_range [OF assms]
  have "py_get (lines s) (clamp_row s) = Some (lines s ! nat (clamp_row s))" by simp
  then show ?thesis
    unfolding clamp_cursor_def clamp_col_def Let_def clamp_row_def [symmetric]
    by simp
qed

lemma row_ok_lines: "row_ok s \<Longrightarrow> lines s \<noteq> []"
  by (auto simp: row_ok_def)

lemma dot_append_fields [simp]:
  "lines (dot_append s ev) = lines s" "cursor_row (dot_append s ev) = cursor_row s"
  "cursor_col (dot_append s ev) = cursor_col s" "mode (dot_append s ev) = mode s"
  "pending (dot_append s ev) = pending s" "read_only (dot_append s ev) = read_only s"
  "yank_buffer (dot_append s ev) = yank_buffer s" "undo_stack (dot_append s ev) = undo_stack s"
  "redo_stack (dot_append s ev) = redo_stack s" "jsonl (dot_append s ev) = jsonl s"
  "status_msg (dot_append s ev) = status_msg s" "command_buffer (dot_append s ev) = command_buffer s"
  by (simp_all add: dot_append_def)

lemma dot_start_fields [simp]:
  "lines (dot_start s ev) = lines s" "cursor_row (dot_start s ev) = cursor_row s"
  "cursor_col (dot_start s ev) = cursor_col s" "mode (dot_start s ev) = mode s"
  "pending (dot_start s ev) = pending s" "read_only (dot_start s ev) = read_only s"
  "yank_buffer (dot_start s ev) = yank_buffer s" "undo_stack (dot_start s ev) = undo_stack s"
  "redo_stack (dot_start s ev) = redo_stack s" "jsonl (dot_start s ev) = jsonl s"
  "status_msg (dot_start s ev) = status_msg s" "command_buffer (dot_start s ev) = command_buffer s"
  by (simp_all add: dot_start_def)

lemma dot_stop_fields [simp]:
  "lines (dot_stop s) = lines s" "cursor_row (dot_stop s) = cursor_row s"
  "cursor_col (dot_stop s) = cursor_col s" "mode (dot_stop s) = mode s"
  "pending (dot_stop s) = pending s" "read_only (dot_stop s) = read_only s"
  "yank_buffer (dot_stop s) = yank_buffer s" "undo_stack (dot_stop s) = undo_stack s"
  "redo_stack (dot_stop s) = redo_stack s" "jsonl (dot_stop s) = jsonl s"
  "status_msg (dot_stop s) = status_msg s" "command_buffer (dot_stop s) = command_buffer s"
  by (simp_all add: dot_stop_def)

lemma save_undo_fields [simp]:
  "lines (save_undo s) = lines s" "cursor_row (save_undo s) = cursor_row s"
  "cursor_col (save_undo s) = cursor_col s" "mode (save_undo s) = mode s"
  "pending (save_undo s) = pending s" "read_only (save_undo s) = read_only s"
  "yank_buffer (save_undo s) = yank_buffer s" "jsonl (save_undo s) = jsonl s"
  "status_msg (save_undo s) = status_msg s" "command_buffer (save_undo s) = command_buffer s"
  "redo_stack (save_undo s) = []"
  "undo_stack (save_undo s) = push_bounded (undo_stack s) (lines s, cursor_row s, cursor_col s)"
  by (simp_all add: save_undo_def)

lemma hn_pending_start_d:
  "pending s = [] \<Longrightarrow> \<not> read_only s \<Longrightarrow>
   handle_normal_with r env s (char_key ''d'') = Some ((dot_start s (char_key ''d''))\<lparr>pending := ustr ''d''\<rparr>)"
  by (simp add: handle_normal_with_def char_key_def ustr_def Let_def)

lemma hn_pending:
  "pending s \<noteq> [] \<Longrightarrow> handle_normal_with r env s ev =
     handle_pending env s (case character ev of None \<Rightarrow> [] | Some c \<Rightarrow> c) (key ev)"
  by (simp add: handle_normal_with_def)

lemma on_key_normal:
  "mode s = Normal \<Longrightarrow>
   on_key depth env s ev =
     Option.bind (handle_normal_with (dot_replay depth env) env (dot_append s ev) ev) clamp_cursor"
  by (simp add: on_key_def handle_normal_def Let_def)

lemma dd_lines_nonempty: "row_ok s \<Longrightarrow> dd_lines s \<noteq> []"
  by (cases "lines s") (auto simp: dd_lines_def row_ok_def)

lemma single_update: "xs \<noteq> [] \<Longrightarrow> \<not> Suc 0 < length xs \<Longrightarrow> xs[0 := v] = [v]"
  by (cases xs) auto

lemma hp_dd:
  assumes "pending a = ustr ''d''" "\<not> read_only a" "row_ok a"
  shows "\<exists>t. handle_pending env a (ustr ''d'') (ustr ''d'') = Some t
           \<and> yank_buffer t = [cur_line a] \<and> lines t = dd_lines a \<and> mode t = mode a
           \<and> cursor_col t = 0 \<and> pending t = [] \<and> read_only t = read_only a
           \<and> undo_stack t = undo_stack (save_undo a) \<and> redo_stack t = []"
proof -
  from assms(3) have "0 < length (lines a)" by (auto simp: row_ok_def)
  with assms show ?thesis
    by (simp add: handle_pending_def ustr_def Let_def row_ok_def cur_line_def dd_lines_def
          single_update)
qed

lemma clamp_after:
  assumes "h = Some t" "lines t \<noteq> []"
  shows "\<exists>t'. Option.bind h clamp_cursor = Some t' \<and> lines t' = lines t \<and> mode t' = mode t
           \<and> yank_buffer t' = yank_buffer t \<and> pending t' = pending t
           \<and> read_only t' = read_only t \<and> undo_stack t' = undo_stack t
           \<and> redo_stack t' = redo_stack t \<and> status_msg t' = status_msg t
           \<and> cursor_row t' = clamp_row t \<and> cursor_col t' = clamp_col t"
  using assms by (simp add: clamp_cursor_eq)

subsection \<open>\<open>dd\<close>\<close>

text \<open>
  C4. In Normal mode with no pending prefix, in a session that is not read-only and with
  the cursor row inside the buffer, the keys \<open>d\<close> \<open>d\<close> are processed without an
  exception; afterwards the yank buffer is the one line that was under the cursor, and
  the buffer is the old buffer without that line, or the one empty line when the buffer
  had a single line (\<open>dd_lines\<close>). The buffer keeps at least one line.
\<close>

theorem dd_deletes_line:
  assumes "normal_ready s" and "row_ok s"
  shows "\<exists>s'. on_keys depth env s [char_key ''d'', char_key ''d''] = Some s'
           \<and> yank_buffer s' = [cur_line s] \<and> lines s' = dd_lines s
           \<and> 1 \<le> length (lines s')"
proof -
  let ?d = "char_key ''d''"
  from assms have ne: "lines s \<noteq> []" by (simp add: row_ok_lines)
  from assms(1) have m: "mode s = Normal" "pending s = []" "\<not> read_only s"
    by (simp_all add: normal_ready_def)
  have "handle_normal_with (dot_replay depth env) env (dot_append s ?d) ?d =
        Some ((dot_start (dot_append s ?d) ?d)\<lparr>pending := ustr ''d''\<rparr>)"
    using m by (simp add: hn_pending_start_d)
  from clamp_after [OF this] ne m(1)
  obtain a where a: "on_key depth env s ?d = Some a" "lines a = lines s" "mode a = Normal"
    "pending a = ustr ''d''" "\<not> read_only a" "cursor_row a = cursor_row s"
    using m(3) assms(2) by (auto simp: on_key_normal clamp_row_id row_ok_def clamp_row_def)
  let ?a = "dot_append a ?d"
  have ra: "row_ok ?a" using a assms(2) by (simp add: row_ok_def)
  have pa: "pending ?a \<noteq> []" using a by (simp add: ustr_def)
  from hp_dd [of ?a env] a ra
  obtain t where t: "handle_pending env ?a (ustr ''d'') (ustr ''d'') = Some t"
    "yank_buffer t = [cur_line ?a]" "lines t = dd_lines ?a" "mode t = Normal"
    by auto
  have dl: "dd_lines ?a = dd_lines s" "cur_line ?a = cur_line s"
    using a by (simp_all add: dd_lines_def cur_line_def)
  have hn: "handle_normal_with (dot_replay depth env) env ?a ?d = Some t"
    using t(1) pa by (simp add: hn_pending char_key_def)
  have "lines t \<noteq> []" using t(3) dl dd_lines_nonempty [OF assms(2)] by simp
  from clamp_after [OF hn this]
  obtain s' where s': "on_key depth env a ?d = Some s'" "lines s' = lines t"
    "yank_buffer s' = yank_buffer t"
    using a(3) by (auto simp: on_key_normal)
  have "lines s' \<noteq> []" using s'(2) t(3) dl dd_lines_nonempty [OF assms(2)] by simp
  then have "1 \<le> length (lines s')" by (cases "lines s'") simp_all
  then show ?thesis using a(1) s' t dl by simp
qed

lemma init_fresh: "init_editor env content ro False height = Some (new_editor (if content \<noteq> [] then split_lines content else [[]]) ro False height)"
  by (simp add: init_editor_def initial_lines_def)

lemma init_only:
  "init_editor ascii_env (ustr ''only'') False False 24 = Some (new_editor [ustr ''only''] False False 24)"
  by (simp add: init_fresh) (simp add: split_lines_def ustr_def)

text \<open>
  The scenario of C4: \<open>dd\<close> on the buffer \<open>["only"]\<close> gives the buffer \<open>[""]\<close>, the
  yank buffer \<open>["only"]\<close> and a buffer of length 1.
\<close>

theorem dd_single_line_scenario:
  "\<exists>s s'. init_editor ascii_env (ustr ''only'') False False 24 = Some s
        \<and> on_keys 1 ascii_env s [char_key ''d'', char_key ''d''] = Some s'
        \<and> lines s' = [[]] \<and> yank_buffer s' = [ustr ''only''] \<and> length (lines s') = 1"
proof -
  let ?s = "new_editor [ustr ''only''] False False 24"
  have "normal_ready ?s" by (simp add: normal_ready_def new_editor_def)
  moreover have "row_ok ?s" by (simp add: row_ok_def new_editor_def)
  ultimately obtain s' where s': "on_keys 1 ascii_env ?s [char_key ''d'', char_key ''d''] = Some s'"
    "yank_buffer s' = [cur_line ?s]" "lines s' = dd_lines ?s"
    using dd_deletes_line [of ?s 1 ascii_env] by blast
  have "cur_line ?s = ustr ''only''" "dd_lines ?s = [[]]"
    by (simp_all add: dd_lines_def cur_line_def new_editor_def)
  with s' init_only show ?thesis by simp
qed

subsection \<open>Structural edge cases\<close>

lemma clamp_id:
  assumes "cursor_inv s" "lines t = lines s" "cursor_row t = cursor_row s"
    "cursor_col t = cursor_col s" "mode t = mode s"
  shows "clamp_row t = cursor_row s \<and> clamp_col t = cursor_col s"
proof -
  from assms have r: "clamp_row t = cursor_row s"
    by (simp add: clamp_row_def cursor_inv_def row_ok_def)
  from assms(1) have "0 \<le> cursor_col s" "cursor_col s \<le> int (length (cur_line s))"
    "mode s = Normal \<Longrightarrow> cur_line s \<noteq> [] \<Longrightarrow> cursor_col s \<le> int (length (cur_line s)) - 1"
    by (simp_all add: cursor_inv_def)
  then have "clamp_col t = cursor_col s"
    using assms(2-5) r by (auto simp: clamp_col_def cur_line_def Let_def)
  with r show ?thesis by simp
qed

lemma noop_step:
  assumes "cursor_inv s" "mode s = Normal"
    and h: "handle_normal_with (dot_replay depth env) env (dot_append s ev) ev = Some t"
    and t: "lines t = lines s" "cursor_row t = cursor_row s" "cursor_col t = cursor_col s"
      "mode t = mode s"
  shows "\<exists>s'. on_key depth env s ev = Some s' \<and> same_text s s' \<and> status_msg s' = status_msg t"
proof -
  from assms(1) have "lines s \<noteq> []" by (simp add: cursor_inv_def row_ok_lines)
  with t have "lines t \<noteq> []" by simp
  from clamp_after [OF h this] clamp_id [OF assms(1) t] t assms(2)
  show ?thesis by (auto simp: on_key_normal same_text_def)
qed

lemma hn_p:
  "pending s = [] \<Longrightarrow> \<not> read_only s \<Longrightarrow>
   handle_normal_with r env s (char_key ''p'') = Some (paste_after (dot_stop (dot_start s (char_key ''p''))))"
  by (simp add: handle_normal_with_def char_key_def ustr_def Let_def readonly_or_def)

lemma hn_P:
  "pending s = [] \<Longrightarrow> \<not> read_only s \<Longrightarrow>
   handle_normal_with r env s (char_key ''P'') = Some (paste_before (dot_stop (dot_start s (char_key ''P''))))"
  by (simp add: handle_normal_with_def char_key_def ustr_def Let_def readonly_or_def)

lemma hn_J:
  "pending s = [] \<Longrightarrow> \<not> read_only s \<Longrightarrow>
   handle_normal_with r env s (char_key ''J'') = join_lines env (dot_stop (dot_start s (char_key ''J'')))"
  by (simp add: handle_normal_with_def char_key_def ustr_def Let_def readonly_or_def)

lemma hn_u:
  "pending s = [] \<Longrightarrow> \<not> read_only s \<Longrightarrow>
   handle_normal_with r env s (char_key ''u'') = Some (undo s)"
  by (simp add: handle_normal_with_def char_key_def ustr_def Let_def readonly_or_def)

lemma hn_ctrl_r:
  "pending s = [] \<Longrightarrow> \<not> read_only s \<Longrightarrow>
   handle_normal_with r env s (named_key ''ctrl+r'') = Some (redo s)"
  by (simp add: handle_normal_with_def named_key_def ustr_def Let_def readonly_or_def)

lemma paste_after_empty_noop:
  assumes "normal_ready s" and "cursor_inv s" and "yank_buffer s = []"
  shows "\<exists>s'. on_key depth env s (char_key ''p'') = Some s' \<and> same_text s s'
              \<and> status_msg s' = status_msg s"
proof -
  from assms(1) have m: "mode s = Normal" "pending s = []" "\<not> read_only s"
    by (simp_all add: normal_ready_def)
  show ?thesis
    using noop_step [OF assms(2) m(1), of depth env "char_key ''p''"
        "paste_after (dot_stop (dot_start (dot_append s (char_key ''p'')) (char_key ''p'')))"]
      m assms(3) by (simp add: hn_p paste_after_def)
qed

text \<open>
  C9, as the code has it. In Normal mode with no pending prefix, in a session that is not
  read-only and with the cursor invariant: \<open>p\<close> and \<open>P\<close> with an empty yank buffer, \<open>J\<close>
  on the last line and \<open>u\<close> with an empty undo stack are processed without an
  exception and leave the buffer and the cursor unchanged. Only \<open>u\<close> sets a status
  message (\<open>nothing to undo\<close>); \<open>p\<close>, \<open>P\<close> and \<open>J\<close> leave the status message as it
  was.
\<close>

theorem edge_cases_are_noops:
  assumes "normal_ready s" and "cursor_inv s"
  shows "(yank_buffer s = [] \<longrightarrow>
            (\<exists>s'. on_key depth env s (char_key ''p'') = Some s' \<and> same_text s s'
                 \<and> status_msg s' = status_msg s))
       \<and> (yank_buffer s = [] \<longrightarrow>
            (\<exists>s'. on_key depth env s (char_key ''P'') = Some s' \<and> same_text s s'
                 \<and> status_msg s' = status_msg s))
       \<and> (cursor_row s \<ge> int (length (lines s)) - 1 \<longrightarrow>
            (\<exists>s'. on_key depth env s (char_key ''J'') = Some s' \<and> same_text s s'
                 \<and> status_msg s' = status_msg s))
       \<and> (undo_stack s = [] \<longrightarrow>
            (\<exists>s'. on_key depth env s (char_key ''u'') = Some s' \<and> same_text s s'
                 \<and> status_msg s' = ustr ''nothing to undo''))"
proof -
  from assms(1) have m: "mode s = Normal" "pending s = []" "\<not> read_only s"
    by (simp_all add: normal_ready_def)
  have p: "\<exists>s'. on_key depth env s (char_key ''p'') = Some s' \<and> same_text s s'
                 \<and> status_msg s' = status_msg s" if "yank_buffer s = []"
    using paste_after_empty_noop [OF assms that] .
  have P: "\<exists>s'. on_key depth env s (char_key ''P'') = Some s' \<and> same_text s s'
                 \<and> status_msg s' = status_msg s" if "yank_buffer s = []"
    using noop_step [OF assms(2) m(1), of depth env "char_key ''P''"
        "paste_before (dot_stop (dot_start (dot_append s (char_key ''P'')) (char_key ''P'')))"]
      m that by (simp add: hn_P paste_before_def)
  have J: "\<exists>s'. on_key depth env s (char_key ''J'') = Some s' \<and> same_text s s'
                 \<and> status_msg s' = status_msg s" if "cursor_row s \<ge> int (length (lines s)) - 1"
    using noop_step [OF assms(2) m(1), of depth env "char_key ''J''"
        "dot_stop (dot_start (dot_append s (char_key ''J'')) (char_key ''J''))"]
      m that by (simp add: hn_J join_lines_def)
  have u: "\<exists>s'. on_key depth env s (char_key ''u'') = Some s' \<and> same_text s s'
                 \<and> status_msg s' = ustr ''nothing to undo''" if "undo_stack s = []"
    using noop_step [OF assms(2) m(1), of depth env "char_key ''u''"
        "undo (dot_append s (char_key ''u''))"]
      m that by (simp add: hn_u undo_def)
  from p P J u show ?thesis by blast
qed

lemma fresh_braces_fields:
  "lines (fresh_editor (ustr ''{}'')) = [ustr ''{}'']" "cursor_row (fresh_editor (ustr ''{}'')) = 0"
  "cursor_col (fresh_editor (ustr ''{}'')) = 0" "mode (fresh_editor (ustr ''{}'')) = Normal" "pending (fresh_editor (ustr ''{}'')) = []"
  "\<not> read_only (fresh_editor (ustr ''{}''))" "yank_buffer (fresh_editor (ustr ''{}'')) = []"
  "undo_stack (fresh_editor (ustr ''{}'')) = []" "redo_stack (fresh_editor (ustr ''{}'')) = []"
  "status_msg (fresh_editor (ustr ''{}'')) = []" "\<not> jsonl (fresh_editor (ustr ''{}''))"
  by (simp_all add: fresh_editor_def new_editor_def split_lines_def ustr_def)

lemma fresh_braces_ready: "normal_ready (fresh_editor (ustr ''{}''))" "cursor_inv (fresh_editor (ustr ''{}''))"
  by (simp_all add: normal_ready_def cursor_inv_def row_ok_def cur_line_def fresh_braces_fields)

text \<open>
  The edge cases on a fresh editor holding \<open>{}\<close>: the yank buffer and the undo stack are
  empty and the cursor is on the last line.
\<close>

theorem edge_cases_fresh_editor:
  "(\<exists>s'. on_key 1 ascii_env (fresh_editor (ustr ''{}'')) (char_key ''p'') = Some s'
         \<and> same_text (fresh_editor (ustr ''{}'')) s' \<and> status_msg s' = [])
   \<and> (\<exists>s'. on_key 1 ascii_env (fresh_editor (ustr ''{}'')) (char_key ''P'') = Some s'
         \<and> same_text (fresh_editor (ustr ''{}'')) s' \<and> status_msg s' = [])
   \<and> (\<exists>s'. on_key 1 ascii_env (fresh_editor (ustr ''{}'')) (char_key ''J'') = Some s'
         \<and> same_text (fresh_editor (ustr ''{}'')) s' \<and> status_msg s' = [])
   \<and> (\<exists>s'. on_key 1 ascii_env (fresh_editor (ustr ''{}'')) (char_key ''u'') = Some s'
         \<and> same_text (fresh_editor (ustr ''{}'')) s' \<and> status_msg s' = ustr ''nothing to undo'')"
  using edge_cases_are_noops [OF fresh_braces_ready, of 1 ascii_env]
  by (simp add: fresh_braces_fields)

text \<open>
  The claim C9 as stated fails: on that fresh editor \<open>p\<close> with the empty yank buffer
  leaves the status message empty, so no status message is surfaced.
\<close>

theorem paste_empty_no_status:
  "map_option status_msg (on_key 1 ascii_env (fresh_editor (ustr ''{}'')) (char_key ''p'')) = Some []"
  using paste_after_empty_noop [OF fresh_braces_ready, of 1 ascii_env]
  by (auto simp: fresh_braces_fields)

subsection \<open>\<open>o\<close> and \<open>O\<close>\<close>

lemma slice_bound_nat [simp]: "0 \<le> i \<Longrightarrow> i \<le> int (length xs) \<Longrightarrow> slice_bound xs i = nat i"
  by (auto simp: slice_bound_def)

lemma leading_ws_nonneg: "0 \<le> leading_ws env line"
  by (simp add: leading_ws_def lstrip_def length_dropWhile_le)

lemma indent_of_nonneg: "0 \<le> indent_of env line"
  by (simp add: indent_of_def leading_ws_nonneg)

lemma current_indent_eq:
  "row_ok s \<Longrightarrow> current_indent env s = Some (indent_of env (cur_line s))"
  by (simp add: current_indent_def indent_of_def row_ok_def cur_line_def)

lemma hn_o:
  "pending s = [] \<Longrightarrow> \<not> read_only s \<Longrightarrow>
   handle_normal_with r env s (char_key ''o'') = open_below env s (char_key ''o'')"
  by (simp add: handle_normal_with_def char_key_def ustr_def Let_def readonly_or_def)

lemma hn_O:
  "pending s = [] \<Longrightarrow> \<not> read_only s \<Longrightarrow>
   handle_normal_with r env s (char_key ''O'') = open_above env s (char_key ''O'')"
  by (simp add: handle_normal_with_def char_key_def ustr_def Let_def readonly_or_def)

lemma clamp_new_line:
  assumes "mode t = Insert" "lines t = take k ls @ v # drop k ls" "k \<le> length ls"
    "cursor_row t = int k" "cursor_col t = int (length v)"
  shows "clamp_row t = int k \<and> clamp_col t = int (length v)"
proof -
  have r: "clamp_row t = int k" using assms by (simp add: clamp_row_def)
  have "lines t ! k = v" using assms(2,3) by (simp add: nth_append)
  then show ?thesis using r assms(1,5) by (simp add: clamp_col_def Let_def)
qed

lemma open_below_eq:
  assumes "\<not> read_only s" "row_ok s"
  shows "\<exists>t. open_below env s ev = Some t \<and> mode t = Insert
           \<and> lines t = take (nat (cursor_row s) + 1) (lines s)
                 @ (spaces (indent_of env (cur_line s)) @ extra_of env (cur_line s))
                 # drop (nat (cursor_row s) + 1) (lines s)
           \<and> cursor_row t = cursor_row s + 1
           \<and> cursor_col t = indent_of env (cur_line s) + int (length (extra_of env (cur_line s)))"
proof -
  let ?s1 = "save_undo (dot_start s ev)"
  have r: "row_ok ?s1" "cur_line ?s1 = cur_line s" using assms(2)
    by (simp_all add: row_ok_def cur_line_def)
  have b: "0 \<le> cursor_row s + 1" "cursor_row s + 1 \<le> int (length (lines s))"
    "nat (cursor_row s + 1) = nat (cursor_row s) + 1"
    using assms(2) by (auto simp: row_ok_def)
  show ?thesis
    using assms r b current_indent_eq [OF r(1), of env]
    by (simp add: open_below_def Let_def row_ok_def py_insert_def enter_insert_def
          extra_of_def cur_line_def)
qed

lemma open_above_eq:
  assumes "\<not> read_only s" "row_ok s"
  shows "\<exists>t. open_above env s ev = Some t \<and> mode t = Insert
           \<and> lines t = take (nat (cursor_row s)) (lines s)
                 @ spaces (indent_of env (cur_line s)) # drop (nat (cursor_row s)) (lines s)
           \<and> cursor_row t = cursor_row s
           \<and> cursor_col t = indent_of env (cur_line s)"
proof -
  let ?s1 = "save_undo (dot_start s ev)"
  have r: "row_ok ?s1" "cur_line ?s1 = cur_line s" using assms(2)
    by (simp_all add: row_ok_def cur_line_def)
  show ?thesis
    using assms r current_indent_eq [OF r(1), of env]
    by (simp add: open_above_def Let_def row_ok_def py_insert_def enter_insert_def cur_line_def)
qed

lemma length_spaces: "0 \<le> n \<Longrightarrow> int (length (spaces n)) = n"
  by (simp add: spaces_def)

lemma open_line_below:
  assumes "normal_ready s" and "row_ok s"
  shows "\<exists>s'. on_key depth env s (char_key ''o'') = Some s' \<and> mode s' = Insert
           \<and> lines s' = take (nat (cursor_row s) + 1) (lines s)
                 @ (spaces (indent_of env (cur_line s)) @ extra_of env (cur_line s))
                 # drop (nat (cursor_row s) + 1) (lines s)
           \<and> cursor_row s' = cursor_row s + 1
           \<and> cursor_col s' = indent_of env (cur_line s) + int (length (extra_of env (cur_line s)))"
proof -
  let ?o = "char_key ''o''"
  let ?a = "dot_append s ?o"
  let ?v = "spaces (indent_of env (cur_line s)) @ extra_of env (cur_line s)"
  from assms(1) have m: "mode s = Normal" "pending s = []" "\<not> read_only s"
    by (simp_all add: normal_ready_def)
  have ra: "row_ok ?a" "cur_line ?a = cur_line s" "\<not> read_only ?a"
    using assms(2) m by (simp_all add: row_ok_def cur_line_def)
  from open_below_eq [OF ra(3) ra(1), of env ?o] ra(2)
  obtain t where t: "open_below env ?a ?o = Some t" "mode t = Insert"
    "lines t = take (nat (cursor_row s) + 1) (lines s) @ ?v # drop (nat (cursor_row s) + 1) (lines s)"
    "cursor_row t = cursor_row s + 1"
    "cursor_col t = indent_of env (cur_line s) + int (length (extra_of env (cur_line s)))"
    by auto
  have h: "handle_normal_with (dot_replay depth env) env ?a ?o = Some t"
    using m t(1) by (simp add: hn_o)
  have k: "nat (cursor_row s) + 1 \<le> length (lines s)" "cursor_row t = int (nat (cursor_row s) + 1)"
    using assms(2) t(4) by (auto simp: row_ok_def)
  have c: "cursor_col t = int (length ?v)"
    using t(5) length_spaces [OF indent_of_nonneg, of env "cur_line s"] by simp
  from clamp_new_line [OF t(2) t(3) k c]
  have cl: "clamp_row t = cursor_row t" "clamp_col t = cursor_col t" using k(2) c by simp_all
  have "lines t \<noteq> []" using t(3) by simp
  from clamp_after [OF h this] cl t m(1) show ?thesis
    by (auto simp: on_key_normal)
qed

lemma open_line_above:
  assumes "normal_ready s" and "row_ok s"
  shows "\<exists>s'. on_key depth env s (char_key ''O'') = Some s' \<and> mode s' = Insert
           \<and> lines s' = take (nat (cursor_row s)) (lines s)
                 @ spaces (indent_of env (cur_line s)) # drop (nat (cursor_row s)) (lines s)
           \<and> cursor_row s' = cursor_row s
           \<and> cursor_col s' = indent_of env (cur_line s)"
proof -
  let ?o = "char_key ''O''"
  let ?a = "dot_append s ?o"
  let ?v = "spaces (indent_of env (cur_line s))"
  from assms(1) have m: "mode s = Normal" "pending s = []" "\<not> read_only s"
    by (simp_all add: normal_ready_def)
  have ra: "row_ok ?a" "cur_line ?a = cur_line s" "\<not> read_only ?a"
    using assms(2) m by (simp_all add: row_ok_def cur_line_def)
  from open_above_eq [OF ra(3) ra(1), of env ?o] ra(2)
  obtain t where t: "open_above env ?a ?o = Some t" "mode t = Insert"
    "lines t = take (nat (cursor_row s)) (lines s) @ ?v # drop (nat (cursor_row s)) (lines s)"
    "cursor_row t = cursor_row s"
    "cursor_col t = indent_of env (cur_line s)"
    by auto
  have h: "handle_normal_with (dot_replay depth env) env ?a ?o = Some t"
    using m t(1) by (simp add: hn_O)
  have k: "nat (cursor_row s) \<le> length (lines s)" "cursor_row t = int (nat (cursor_row s))"
    using assms(2) t(4) by (auto simp: row_ok_def)
  have c: "cursor_col t = int (length ?v)"
    using t(5) length_spaces [OF indent_of_nonneg, of env "cur_line s"] by simp
  from clamp_new_line [OF t(2) t(3) k c]
  have cl: "clamp_row t = cursor_row t" "clamp_col t = cursor_col t" using k(2) c by simp_all
  have "lines t \<noteq> []" using t(3) by simp
  from clamp_after [OF h this] cl t m(1) show ?thesis
    by (auto simp: on_key_normal)
qed

lemma hn_j:
  "pending s = [] \<Longrightarrow>
   handle_normal_with r env s (char_key ''j'') = Some (s\<lparr>cursor_row := cursor_row s + 1\<rparr>)"
  by (simp add: handle_normal_with_def char_key_def ustr_def Let_def)

lemma fresh_fields:
  "cursor_row (fresh_editor c) = 0" "cursor_col (fresh_editor c) = 0"
  "mode (fresh_editor c) = Normal" "pending (fresh_editor c) = []"
  "\<not> read_only (fresh_editor c)" "yank_buffer (fresh_editor c) = []"
  "undo_stack (fresh_editor c) = []" "redo_stack (fresh_editor c) = []"
  "status_msg (fresh_editor c) = []" "\<not> jsonl (fresh_editor c)"
  "\<not> dot_recording (fresh_editor c)" "\<not> dot_replaying (fresh_editor c)"
  "dot_buffer (fresh_editor c) = []"
  by (simp_all add: fresh_editor_def new_editor_def)

lemma fresh_lines: "c \<noteq> [] \<Longrightarrow> lines (fresh_editor c) = split_lines c"
  by (simp add: fresh_editor_def new_editor_def)

lemma fresh_ready: "normal_ready (fresh_editor c)"
  by (simp add: normal_ready_def fresh_fields)

lemmas ascii_simps = ascii_env_def ascii_space_def ascii_digit_def ascii_alnum_def
  strip_def lstrip_def rstrip_def leading_ws_def indent_of_def extra_of_def ends_open_def
  is_open_def is_close_def spaces_def ustr_def split_lines_def

text \<open>
  C7, as the code has it. In Normal mode with no pending prefix, in a session that is not
  read-only and with the cursor row inside the buffer, \<open>o\<close> and \<open>O\<close> are processed
  without an exception and enter Insert mode. \<open>o\<close> inserts below the current line a
  line of \<open>indent_of\<close> spaces (the current line's leading whitespace, counted as
  spaces; 0 for a blank line) plus four more when the current line, without its trailing
  whitespace, ends with \<open>{\<close> or \<open>[\<close>; the cursor is on the new line, after the
  indentation. \<open>O\<close> inserts above the current line a line of \<open>indent_of\<close> spaces and
  never adds the extra level; the cursor is on the new line, after the indentation.
\<close>

theorem open_line_indentation:
  assumes "normal_ready s" and "row_ok s"
  shows "(\<exists>s'. on_key depth env s (char_key ''o'') = Some s' \<and> mode s' = Insert
           \<and> lines s' = take (nat (cursor_row s) + 1) (lines s)
                 @ (spaces (indent_of env (cur_line s)) @ extra_of env (cur_line s))
                 # drop (nat (cursor_row s) + 1) (lines s)
           \<and> cursor_row s' = cursor_row s + 1
           \<and> cursor_col s' = indent_of env (cur_line s) + int (length (extra_of env (cur_line s))))
       \<and> (\<exists>s'. on_key depth env s (char_key ''O'') = Some s' \<and> mode s' = Insert
           \<and> lines s' = take (nat (cursor_row s)) (lines s)
                 @ spaces (indent_of env (cur_line s)) # drop (nat (cursor_row s)) (lines s)
           \<and> cursor_row s' = cursor_row s
           \<and> cursor_col s' = indent_of env (cur_line s))"
  by (intro conjI open_line_below [OF assms] open_line_above [OF assms])

text \<open>
  On the buffer \<open>["  {"]\<close>: \<open>o\<close> gives \<open>["  {", "      "]\<close> with the cursor at (1, 6),
  \<open>O\<close> gives \<open>["  ", "  {"]\<close> with the cursor at (0, 2).
\<close>

theorem open_line_after_brace:
  "(\<exists>s'. on_key 1 ascii_env (fresh_editor (ustr ''  {'')) (char_key ''o'') = Some s'
        \<and> mode s' = Insert \<and> lines s' = [ustr ''  {'', ustr ''      '']
        \<and> cursor_row s' = 1 \<and> cursor_col s' = 6)
   \<and> (\<exists>s'. on_key 1 ascii_env (fresh_editor (ustr ''  {'')) (char_key ''O'') = Some s'
        \<and> mode s' = Insert \<and> lines s' = [ustr ''  '', ustr ''  {'']
        \<and> cursor_row s' = 0 \<and> cursor_col s' = 2)"
proof -
  let ?s = "fresh_editor (ustr ''  {'')"
  have l: "lines ?s = [ustr ''  {'']" by (simp add: fresh_lines ustr_def split_lines_def)
  have r: "row_ok ?s" by (simp add: row_ok_def l fresh_fields)
  have c: "cur_line ?s = ustr ''  {''" by (simp add: cur_line_def l fresh_fields)
  have i: "indent_of ascii_env (ustr ''  {'') = 2" "extra_of ascii_env (ustr ''  {'') = ustr ''    ''"
    by (simp_all add: ascii_simps)
  have sp: "spaces 2 = ustr ''  ''" by (simp add: spaces_def ustr_def eval_nat_numeral)
  from open_line_indentation [OF fresh_ready r, of 1 ascii_env]
  show ?thesis by (simp add: l c i sp fresh_fields) (simp add: ustr_def)
qed

text \<open>
  The claim C7 as stated fails for \<open>O\<close>: on the buffer \<open>["{", "}"]\<close> with the cursor
  on the second line, \<open>O\<close> inserts the empty line between them, although the line above
  the new line ends with an open bracket.
\<close>

theorem open_above_no_extra_indent:
  "map_option lines
     (on_keys 1 ascii_env (fresh_editor [123, 10, 125]) [char_key ''j'', char_key ''O''])
   = Some [ustr ''{'', [], ustr ''}'']"
proof -
  let ?s = "fresh_editor [123, 10, 125]"
  have l: "lines ?s = [[123], [125]]" by (simp add: fresh_lines split_lines_def)
  let ?t = "(dot_append ?s (char_key ''j''))\<lparr>cursor_row := 1\<rparr>"
  have h: "handle_normal_with (dot_replay 1 ascii_env) ascii_env (dot_append ?s (char_key ''j''))
             (char_key ''j'') = Some ?t"
    by (simp add: hn_j fresh_fields)
  have "lines ?t \<noteq> []" by (simp add: l)
  from clamp_after [OF h this]
  obtain a where a: "on_key 1 ascii_env ?s (char_key ''j'') = Some a" "lines a = [[123], [125]]"
    "mode a = Normal" "pending a = []" "\<not> read_only a" "cursor_row a = 1"
    by (auto simp: on_key_normal fresh_fields l clamp_row_def)
  have "normal_ready a" "row_ok a" using a by (simp_all add: normal_ready_def row_ok_def)
  from open_line_above [OF this, of 1 ascii_env]
  obtain s' where s': "on_key 1 ascii_env a (char_key ''O'') = Some s'"
    "lines s' = take (nat (cursor_row a)) (lines a)
                 @ spaces (indent_of ascii_env (cur_line a)) # drop (nat (cursor_row a)) (lines a)"
    by blast
  have "indent_of ascii_env (cur_line a) = 0" using a by (simp add: cur_line_def ascii_simps)
  with s' a show ?thesis by (simp add: spaces_def ustr_def)
qed

subsection \<open>\<open>:fmt\<close>\<close>

lemma cannot_format_prefix: "cannot_format (ustr ''cannot format: '' @ detail)"
  by (simp add: cannot_format_def ustr_def)

lemma loads_dumps_serialized:
  "serialized env t = Some x \<Longrightarrow> loads_dumps env True False t = Some (Inr x)"
  by (auto simp: serialized_def loads_dumps_def split: loaded.splits)

lemma loads_dumps_decode_error:
  "decode_error env t \<Longrightarrow> \<exists>msg lineno. loads_dumps env True False t = Some (Inl (msg, lineno))"
  by (auto simp: decode_error_def loads_dumps_def split: loaded.splits)

lemma loads_dumps_raises:
  "serialized env t = None \<Longrightarrow> \<not> decode_error env t \<Longrightarrow> loads_dumps env True False t = None"
  by (auto simp: serialized_def decode_error_def loads_dumps_def split: loaded.splits)

lemma format_blocks_all:
  "those (map (serialized env) blocks) = Some texts \<Longrightarrow>
   format_blocks env i blocks acc = Some (Inr (acc @ texts))"
proof (induction blocks arbitrary: i acc texts)
  case Nil
  then show ?case by simp
next
  case (Cons block blocks)
  from Cons.prems obtain x xs where x: "serialized env block = Some x"
    and xs: "those (map (serialized env) blocks) = Some xs" and t: "texts = x # xs"
    by (auto split: option.splits)
  show ?case
    using Cons.IH [OF xs, of "i + 1" "acc @ [x]"] t
    by (simp add: loads_dumps_serialized [OF x])
qed

lemma format_blocks_decode:
  "dropWhile (\<lambda>b. serialized env b \<noteq> None) blocks = b # rest \<Longrightarrow> decode_error env b \<Longrightarrow>
   \<exists>k msg. format_blocks env i blocks acc = Some (Inl (k, msg))"
proof (induction blocks arbitrary: i acc)
  case Nil
  then show ?case by simp
next
  case (Cons block blocks)
  show ?case
  proof (cases "serialized env block")
    case None
    with Cons.prems have "block = b" by simp
    with Cons.prems(2) loads_dumps_decode_error [of env b] show ?thesis by auto
  next
    case (Some x)
    with Cons.prems have "dropWhile (\<lambda>b. serialized env b \<noteq> None) blocks = b # rest" by simp
    from Cons.IH [OF this Cons.prems(2), of "i + 1" "acc @ [x]"] show ?thesis
      by (simp add: loads_dumps_serialized [OF Some])
  qed
qed

lemma format_blocks_raises:
  "dropWhile (\<lambda>b. serialized env b \<noteq> None) blocks = b # rest \<Longrightarrow> \<not> decode_error env b \<Longrightarrow>
   format_blocks env i blocks acc = None"
proof (induction blocks arbitrary: i acc)
  case Nil
  then show ?case by simp
next
  case (Cons block blocks)
  show ?case
  proof (cases "serialized env block")
    case None
    with Cons.prems have "block = b" by simp
    with Cons.prems(2) None show ?thesis by (simp add: loads_dumps_raises)
  next
    case (Some x)
    with Cons.prems have "dropWhile (\<lambda>b. serialized env b \<noteq> None) blocks = b # rest" by simp
    from Cons.IH [OF this Cons.prems(2), of "i + 1" "acc @ [x]"] show ?thesis
      by (simp add: loads_dumps_serialized [OF Some])
  qed
qed

lemma those_None_dropWhile:
  "those (map f xs) = None \<Longrightarrow> \<exists>b rest. dropWhile (\<lambda>b. f b \<noteq> None) xs = b # rest"
  by (induction xs) (auto split: option.splits)

lemma those_Some_dropWhile:
  "those (map f xs) = Some ys \<Longrightarrow> dropWhile (\<lambda>b. f b \<noteq> None) xs = []"
  by (induction xs arbitrary: ys) (auto split: option.splits)

text \<open>
  What \<open>_format_json\<close> does (with \<open>_format_jsonl\<close> for a JSONL session), in every case.
  On a parse failure, a JSONDecodeError of \<open>json.loads\<close>, the status message is set to
  one that starts with \<open>cannot format: \<close> and the buffer lines, the cursor and the undo
  stack are unchanged. When the buffer has a serialization, the buffer becomes its
  lines, and the undo stack is the old one with the snapshot of the prior buffer and
  cursor pushed. In the one case left, \<open>json.loads\<close> or \<open>json.dumps\<close> raises an
  exception that is no JSONDecodeError, and the function raises it.
\<close>

lemma format_jsonl_outcomes:
  "(parse_failure env s \<longrightarrow>
      (\<exists>s'. format_jsonl env s = Some s' \<and> cannot_format (status_msg s') \<and> same_text s s'
         \<and> undo_stack s' = undo_stack s))
   \<and> (\<forall>formatted. serialization env s = Some formatted \<longrightarrow>
      (\<exists>s'. format_jsonl env s = Some s' \<and> lines s' = split_lines formatted
         \<and> undo_stack s' = push_bounded (undo_stack s) (current_snapshot s)
         \<and> status_msg s' = ustr ''formatted''))
   \<and> (\<not> parse_failure env s \<and> serialization env s = None \<longrightarrow> format_jsonl env s = None)"
  if j: "jsonl s"
proof -
  define blocks where "blocks = split_jsonl_blocks env (get_content s)"
  define P where "P = (\<lambda>b. serialized env b \<noteq> None)"
  define rest where "rest = dropWhile P blocks"
  have pf: "parse_failure env s = (case rest of [] \<Rightarrow> False | b # bs \<Rightarrow> decode_error env b)"
    using j by (simp only: parse_failure_def rest_def P_def blocks_def if_True)
  have ser: "serialization env s
             = map_option (join (newline @ newline)) (those (map (serialized env) blocks))"
    using j by (simp only: serialization_def blocks_def if_True)
  have fj: "format_jsonl env s =
     (case format_blocks env 0 blocks [] of
        None \<Rightarrow> None
      | Some (Inl (i, msg)) \<Rightarrow>
          Some (s\<lparr>status_msg := ustr ''cannot format: record '' @ str_of_int (i + 1) @ ustr '': ''
                     @ msg\<rparr>)
      | Some (Inr formatted) \<Rightarrow>
          Some ((save_undo s)\<lparr>lines := split_lines (join (newline @ newline) formatted),
                       cursor_row := 0, cursor_col := 0, status_msg := ustr ''formatted''\<rparr>))"
    by (simp only: format_jsonl_def Let_def blocks_def)
  have 1: "\<exists>s'. format_jsonl env s = Some s' \<and> cannot_format (status_msg s') \<and> same_text s s'
         \<and> undo_stack s' = undo_stack s" if "parse_failure env s"
  proof (cases rest)
    case Nil
    with that pf show ?thesis by simp
  next
    case (Cons b bs)
    with that pf have "decode_error env b" by simp
    from format_blocks_decode [OF Cons [unfolded rest_def P_def] this, of 0 "[]"]
    obtain k msg where "format_blocks env 0 blocks [] = Some (Inl (k, msg))" by blast
    then show ?thesis
      by (simp add: fj same_text_def cannot_format_def ustr_def)
  qed
  have 2: "\<exists>s'. format_jsonl env s = Some s' \<and> lines s' = split_lines formatted
         \<and> undo_stack s' = push_bounded (undo_stack s) (current_snapshot s)
         \<and> status_msg s' = ustr ''formatted''" if "serialization env s = Some formatted"
    for formatted
  proof -
    from that ser obtain texts where t: "those (map (serialized env) blocks) = Some texts"
      and f: "formatted = join (newline @ newline) texts"
      by auto
    from format_blocks_all [OF t, of 0 "[]"] show ?thesis
      by (simp add: fj f current_snapshot_def)
  qed
  have 3: "format_jsonl env s = None" if "\<not> parse_failure env s" "serialization env s = None"
  proof -
    from that(2) ser have "those (map (serialized env) blocks) = None" by simp
    from those_None_dropWhile [OF this] obtain b bs where b: "rest = b # bs"
      unfolding rest_def P_def by blast
    with that(1) pf have "\<not> decode_error env b" by simp
    from format_blocks_raises [OF b [unfolded rest_def P_def] this, of 0 "[]"]
    show ?thesis by (simp add: fj)
  qed
  from 1 2 3 show ?thesis by blast
qed

lemma format_json_outcomes:
  "(parse_failure env s \<longrightarrow>
      (\<exists>s'. format_editor_json env s = Some s' \<and> cannot_format (status_msg s') \<and> same_text s s'
         \<and> undo_stack s' = undo_stack s))
   \<and> (\<forall>formatted. serialization env s = Some formatted \<longrightarrow>
      (\<exists>s'. format_editor_json env s = Some s' \<and> lines s' = split_lines formatted
         \<and> undo_stack s' = push_bounded (undo_stack s) (current_snapshot s)
         \<and> status_msg s' = ustr ''formatted''))
   \<and> (\<not> parse_failure env s \<and> serialization env s = None \<longrightarrow> format_editor_json env s = None)"
proof (cases "jsonl s")
  case True
  then have "format_editor_json env s = format_jsonl env s" by (simp add: format_editor_json_def)
  with format_jsonl_outcomes [OF True, of env] show ?thesis by simp
next
  case False
  show ?thesis
  proof (intro conjI impI allI)
    assume "parse_failure env s"
    with False have "decode_error env (get_content s)" by (simp add: parse_failure_def)
    from loads_dumps_decode_error [OF this] False
    show "\<exists>s'. format_editor_json env s = Some s' \<and> cannot_format (status_msg s') \<and> same_text s s'
         \<and> undo_stack s' = undo_stack s"
      by (auto simp: format_editor_json_def Let_def same_text_def cannot_format_prefix)
  next
    fix formatted
    assume "serialization env s = Some formatted"
    with False have "serialized env (get_content s) = Some formatted"
      by (simp add: serialization_def)
    from loads_dumps_serialized [OF this] False
    show "\<exists>s'. format_editor_json env s = Some s' \<and> lines s' = split_lines formatted
         \<and> undo_stack s' = push_bounded (undo_stack s) (current_snapshot s)
         \<and> status_msg s' = ustr ''formatted''"
      by (simp add: format_editor_json_def Let_def current_snapshot_def)
  next
    assume "\<not> parse_failure env s \<and> serialization env s = None"
    with False have "serialized env (get_content s) = None" "\<not> decode_error env (get_content s)"
      by (simp_all add: serialization_def parse_failure_def)
    from loads_dumps_raises [OF this] False
    show "format_editor_json env s = None" by (simp add: format_editor_json_def Let_def)
  qed
qed

text \<open>
  How the command reaches \<open>_format_json\<close>: \<open>_exec_command\<close> calls it for \<open>fmt\<close> and
  \<open>format\<close> in a session that is not read-only, and only sets the status message
  \<open>[readonly]\<close> in one that is. The letters of the command are no whitespace and no
  digits, whatever the rest of the Unicode tables says.
\<close>

lemma plain_word:
  assumes ns: "\<forall>c \<in> set cmd. \<not> isspace env c" and nd: "\<not> isdigit env (hd cmd)"
    and ne: "cmd \<noteq> []"
  shows "strip (isspace env) cmd = cmd" "split_once env cmd = [cmd]" "\<not> str_isdigit env cmd"
proof -
  have dw: "dropWhile (isspace env) cmd = cmd"
    using ns ne by (simp add: dropWhile_eq_self_iff)
  have "\<not> isspace env (last cmd)" using ns ne by simp
  then have "dropWhile (isspace env) (rev cmd) = rev cmd"
    using ne by (simp add: dropWhile_eq_self_iff hd_rev)
  then show st: "strip (isspace env) cmd = cmd"
    using dw by (simp_all add: strip_def lstrip_def rstrip_def)
  have tw: "takeWhile (\<lambda>c. \<not> isspace env c) cmd = cmd" "dropWhile (\<lambda>c. \<not> isspace env c) cmd = []"
    using ns by simp_all
  show "split_once env cmd = [cmd]"
    using ne dw by (simp add: split_once_def tw Let_def lstrip_def)
  show "\<not> str_isdigit env cmd" using nd ne by (cases cmd) (auto simp: str_isdigit_def)
qed

lemma exec_command_fmt:
  assumes "\<forall>c \<in> set (ustr ''format''). \<not> isspace env c \<and> \<not> isdigit env c"
    and "cmd = ustr ''fmt'' \<or> cmd = ustr ''format''"
  shows "exec_command env s cmd =
         (if read_only s then Some (s\<lparr>status_msg := ustr ''[readonly]''\<rparr>)
          else format_editor_json env s)"
proof -
  from assms have a: "\<forall>c \<in> set cmd. \<not> isspace env c" "\<not> isdigit env (hd cmd)" "cmd \<noteq> []"
    by (auto simp: ustr_def)
  note p = plain_word [OF a]
  from assms(2) show ?thesis
  proof
    assume c: "cmd = ustr ''fmt''"
    show ?thesis
      unfolding exec_command_def p Let_def using p(3) unfolding c
      by (simp add: ustr_def)
  next
    assume c: "cmd = ustr ''format''"
    show ?thesis
      unfolding exec_command_def p Let_def using p(3) unfolding c
      by (simp add: ustr_def)
  qed
qed


lemma on_key_command:
  "mode s = Command \<Longrightarrow>
   on_key depth env s ev = Option.bind (handle_command env (dot_append s ev) ev) clamp_cursor"
  by (simp add: on_key_def Let_def)

lemma hn_colon:
  "pending s = [] \<Longrightarrow>
   handle_normal_with r env s \<lparr>key = ustr ''colon'', character = Some (ustr '':'')\<rparr>
   = Some (s\<lparr>mode := Command, command_buffer := [], status_msg := []\<rparr>)"
  by (simp add: handle_normal_with_def ustr_def Let_def)

lemma hc_letter:
  "c \<in> {''f'', ''m'', ''t''} \<Longrightarrow>
   handle_command ascii_env s (char_key c) = Some (s\<lparr>command_buffer := command_buffer s @ ustr c\<rparr>)"
  by (auto simp: handle_command_def char_key_def ustr_def str_isprintable_def ascii_env_def)

lemma hc_enter:
  "handle_command env s (named_key ''enter'') =
   Option.bind (exec_command env s (strip (isspace env) (command_buffer s)))
     (\<lambda>s1. Some ((if mode s1 = Command then s1\<lparr>mode := Normal\<rparr> else s1)\<lparr>command_buffer := []\<rparr>))"
  by (simp add: handle_command_def named_key_def ustr_def Let_def)

lemma split_on_absent: "sep \<notin> set t \<Longrightarrow> split_on sep t = [t]"
  by (induction t) auto

lemma long_number_facts:
  "long_number \<noteq> []" "length long_number = 4301" "set long_number = {49}" "hd long_number = 49"
  "last long_number = 49"
  by (simp_all add: long_number_def)

lemma long_number_loads: "small_loads long_number = ValueError"
proof -
  have ns: "\<not> json_space 49" by (simp add: json_space_def)
  have "hd (rev long_number) = 49" using long_number_facts by (simp add: hd_rev)
  with ns have "dropWhile json_space (rev long_number) = rev long_number"
    using long_number_facts(1) by (simp add: dropWhile_eq_self_iff)
  moreover from ns have "dropWhile json_space long_number = long_number"
    using long_number_facts by (simp add: dropWhile_eq_self_iff)
  ultimately have "strip json_space long_number = long_number"
    by (simp add: strip_def lstrip_def rstrip_def)
  moreover have "int_literal long_number"
    by (simp add: int_literal_def long_number_facts list_all_iff ascii_digit_def)
  moreover have "length long_number \<noteq> length (ustr ''{}'')"
    "length long_number \<noteq> length (ustr ''[]'')"
    by (simp_all add: long_number_facts ustr_def)
  then have "long_number \<noteq> ustr ''{}''" "long_number \<noteq> ustr ''[]''" by auto
  ultimately show ?thesis by (simp add: small_loads_def long_number_facts)
qed

lemma fresh_long_number: "fresh_editor long_number = new_editor [long_number] False False 24"
  by (simp add: fresh_editor_def long_number_facts split_lines_def split_on_absent)

text \<open>
  C8 at a buffer that fails to parse. The buffer is one line of 4301 digits, an integer
  literal beyond the limit of \<open>int\<close>, on which \<open>json.loads\<close> raises a ValueError that
  is no JSONDecodeError. \<open>_format_json\<close> raises on it: its handler catches
  JSONDecodeError only (\<open>_try_format\<close> of the diff engine catches ValueError too). So
  does the key handler: the keys \<open>:fmt\<close> are processed and leave the editor in Command
  mode with the buffer unchanged, and the key Enter raises, with no status message set.
\<close>

theorem format_raises_on_long_number:
  "format_editor_json ascii_env (fresh_editor long_number) = None
   \<and> (\<exists>s. on_keys 1 ascii_env (fresh_editor long_number) fmt_keys = Some s
          \<and> mode s = Command \<and> command_buffer s = ustr ''fmt'' \<and> lines s = [long_number]
          \<and> status_msg s = []
          \<and> on_key 1 ascii_env s (named_key ''enter'') = None)"
proof -
  let ?s = "new_editor [long_number] False False 24"
  have gc: "get_content t = long_number" if "lines t = [long_number]" for t
    using that by (simp add: get_content_def)
  have raises: "format_editor_json ascii_env t = None" if "lines t = [long_number]" "\<not> jsonl t" for t
    using that
    by (simp add: format_editor_json_def gc loads_dumps_def Let_def)
       (simp add: ascii_env_def long_number_loads)
  have 1: "format_editor_json ascii_env ?s = None"
    by (rule raises) (simp_all add: new_editor_def)
  let ?c = "\<lambda>b. ?s\<lparr>mode := Command, command_buffer := b, status_msg := []\<rparr>"
  have cl: "clamp_cursor (?c b) = Some (?c b)" for b
    by (simp add: clamp_cursor_def new_editor_def long_number_facts Let_def)
  have da: "dot_append (?c b) ev = ?c b" "dot_append ?s ev = ?s" for b ev
    by (simp_all add: dot_append_def new_editor_def)
  have m: "mode ?s = Normal" "pending ?s = []" by (simp_all add: new_editor_def)
  have k0: "on_key d ascii_env ?s \<lparr>key = ustr ''colon'', character = Some (ustr '':'')\<rparr> = Some (?c [])"
    for d
    unfolding on_key_normal [OF m(1)] da hn_colon [OF m(2)] using cl [of "[]"] by simp
  have mc: "mode (?c b) = Command" for b by simp
  have step: "on_key d ascii_env (?c b) (char_key c) = Some (?c (b @ ustr c))"
    if "c \<in> {''f'', ''m'', ''t''}" for b c d
    unfolding on_key_command [OF mc] da hc_letter [OF that] using cl [of "b @ ustr c"]
    by (simp add: new_editor_def)
  have keys: "on_keys 1 ascii_env ?s fmt_keys = Some (?c (ustr ''fmt''))"
    using step [of "''f''" 1 "[]"] step [of "''m''" 1 "ustr ''f''"] step [of "''t''" 1 "ustr ''fm''"]
    by (simp add: fmt_keys_def k0) (simp add: ustr_def)
  have sp: "\<forall>c \<in> set (ustr ''format''). \<not> isspace ascii_env c \<and> \<not> isdigit ascii_env c"
    by (simp add: ustr_def ascii_env_def ascii_space_def ascii_digit_def)
  have st: "strip (isspace ascii_env) (ustr ''fmt'') = ustr ''fmt''"
    by (rule plain_word(1)) (use sp in \<open>auto simp: ustr_def\<close>)
  have ex: "exec_command ascii_env (?c (ustr ''fmt'')) (ustr ''fmt'') = None"
    using raises [of "?c (ustr ''fmt'')"]
    by (simp add: exec_command_fmt [OF sp]) (simp add: new_editor_def)
  have "on_key d ascii_env (?c (ustr ''fmt'')) (named_key ''enter'') = None" for d
    unfolding on_key_command [OF mc] da hc_enter by (simp add: st ex)
  moreover have "lines ?s = [long_number]" by (simp add: new_editor_def)
  ultimately show ?thesis using 1 keys
    by (simp add: fresh_long_number)
qed

subsection \<open>The cursor invariant\<close>

lemma py_get_Nil [simp]: "py_get [] i = None"
  by (simp add: py_get_def py_index_def)

lemma clamp_cursor_lines: "clamp_cursor s = Some s' \<Longrightarrow> lines s \<noteq> []"
  by (auto simp: clamp_cursor_def Let_def Option.bind_eq_Some_conv)

lemma clamp_col_range:
  "0 \<le> clamp_col s \<and> clamp_col s \<le> int (length (lines s ! nat (clamp_row s)))
   \<and> (mode s = Normal \<and> lines s ! nat (clamp_row s) \<noteq> []
        \<longrightarrow> clamp_col s \<le> int (length (lines s ! nat (clamp_row s))) - 1)"
  by (auto simp: clamp_col_def Let_def)

lemma clamped_cursor_inv:
  assumes "lines s \<noteq> []"
  shows "cursor_inv (s\<lparr>cursor_row := clamp_row s, cursor_col := clamp_col s\<rparr>)"
  using clamp_row_range [OF assms] clamp_col_range [of s]
  by (simp add: cursor_inv_def row_ok_def cur_line_def)

lemma clamp_cursor_inv: "clamp_cursor s = Some s' \<Longrightarrow> cursor_inv s'"
proof -
  assume a: "clamp_cursor s = Some s'"
  then have ne: "lines s \<noteq> []" by (rule clamp_cursor_lines)
  from a clamp_cursor_eq [OF ne] have "s' = s\<lparr>cursor_row := clamp_row s, cursor_col := clamp_col s\<rparr>"
    by simp
  with clamped_cursor_inv [OF ne] show ?thesis by simp
qed

lemma on_key_clamped:
  "on_key depth env s ev = Some s' \<Longrightarrow> \<exists>t. clamp_cursor t = Some s'"
  by (auto simp: on_key_def Let_def Option.bind_eq_Some_conv)

lemma on_key_cursor_inv: "on_key depth env s ev = Some s' \<Longrightarrow> cursor_inv s'"
  using on_key_clamped clamp_cursor_inv by blast

lemma cursor_inv_lines: "cursor_inv s \<Longrightarrow> lines s \<noteq> []"
  by (simp add: cursor_inv_def row_ok_lines)

lemma on_keys_cursor_inv:
  "on_keys depth env s evs = Some s' \<Longrightarrow> evs \<noteq> [] \<Longrightarrow> cursor_inv s'"
proof (induction evs arbitrary: s)
  case Nil
  then show ?case by simp
next
  case (Cons ev evs)
  from Cons.prems(1) obtain t where t: "on_key depth env s ev = Some t"
    "on_keys depth env t evs = Some s'"
    by (auto split: option.splits)
  show ?case
  proof (cases evs)
    case Nil
    with t on_key_cursor_inv show ?thesis by auto
  next
    case (Cons e es)
    with t(2) Cons.IH show ?thesis by auto
  qed
qed

subsection \<open>Undo and redo\<close>

lemma push_bounded_last: "push_bounded stack e \<noteq> [] \<and> last (push_bounded stack e) = e"
proof (cases "length (stack @ [e]) > 200")
  case True
  then have "tl (stack @ [e]) \<noteq> []" by (cases stack) auto
  then have "last (tl (stack @ [e])) = e" by (simp add: last_tl)
  with True \<open>tl (stack @ [e]) \<noteq> []\<close> show ?thesis by (simp add: push_bounded_def Let_def)
next
  case False
  then show ?thesis by (simp add: push_bounded_def Let_def)
qed

text \<open>
  After an edit that saved the snapshot of \<open>s\<close>, \<open>u\<close> restores the buffer and cursor of
  \<open>s\<close>, and \<open>ctrl+r\<close> after it those of the state after the edit.
\<close>

lemma undo_then_redo:
  assumes s: "cursor_inv s" "mode s = Normal"
    and a: "cursor_inv a" "mode a = Normal" "pending a = []" "\<not> read_only a"
      "undo_stack a = push_bounded stack (current_snapshot s)"
  shows "\<exists>s2 s3. on_key depth env a (char_key ''u'') = Some s2
           \<and> on_key depth env s2 (named_key ''ctrl+r'') = Some s3
           \<and> same_text s s2 \<and> same_text a s3"
proof -
  let ?u = "char_key ''u''" and ?r = "named_key ''ctrl+r''"
  let ?a = "dot_append a ?u"
  let ?t = "undo ?a"
  have top: "undo_stack ?a \<noteq> []" "last (undo_stack ?a) = (lines s, cursor_row s, cursor_col s)"
    using a(5) push_bounded_last [of stack "current_snapshot s"]
    by (simp_all add: current_snapshot_def)
  have t: "lines ?t = lines s" "cursor_row ?t = cursor_row s" "cursor_col ?t = cursor_col s"
    "mode ?t = Normal" "pending ?t = []" "\<not> read_only ?t"
    "redo_stack ?t = redo_stack a @ [(lines a, cursor_row a, cursor_col a)]"
    using top a by (simp_all add: undo_def)
  have h: "handle_normal_with (dot_replay depth env) env ?a ?u = Some ?t"
    using a by (simp add: hn_u)
  have ne: "lines ?t \<noteq> []" using t(1) cursor_inv_lines [OF s(1)] by simp
  from clamp_after [OF h ne] clamp_id [OF s(1) t(1-3)] t s(2) a(2)
  obtain s2 where s2: "on_key depth env a ?u = Some s2" "lines s2 = lines s"
    "cursor_row s2 = cursor_row s" "cursor_col s2 = cursor_col s" "mode s2 = Normal"
    "pending s2 = []" "\<not> read_only s2"
    "redo_stack s2 = redo_stack a @ [(lines a, cursor_row a, cursor_col a)]"
    by (auto simp: on_key_normal)
  let ?b = "dot_append s2 ?r"
  let ?v = "redo ?b"
  have v: "lines ?v = lines a" "cursor_row ?v = cursor_row a" "cursor_col ?v = cursor_col a"
    "mode ?v = Normal"
    using s2 by (simp_all add: redo_def)
  have h2: "handle_normal_with (dot_replay depth env) env ?b ?r = Some ?v"
    using s2 by (simp add: hn_ctrl_r)
  have ne2: "lines ?v \<noteq> []" using v(1) cursor_inv_lines [OF a(1)] by simp
  have "mode ?v = mode a" using v(4) a(2) by simp
  from clamp_after [OF h2 ne2] clamp_id [OF a(1) v(1-3) this] v s2(5)
  obtain s3 where s3: "on_key depth env s2 ?r = Some s3" "lines s3 = lines a"
    "cursor_row s3 = cursor_row a" "cursor_col s3 = cursor_col a"
    by (auto simp: on_key_normal)
  from s2 s3 show ?thesis by (auto simp: same_text_def)
qed

lemma scan_fwd_Some: "0 \<le> col \<Longrightarrow> \<exists>c. scan_fwd p line col = Some c \<and> col \<le> c"
proof (induction p line col rule: scan_fwd.induct)
  case (1 p line col)
  show ?case
  proof (cases "col < int (length line)")
    case True
    with 1(2) have g: "py_get line col = Some (line ! nat col)" by simp
    show ?thesis
    proof (cases "p (line ! nat col)")
      case True
      from 1(1) [OF \<open>col < int (length line)\<close> g True] 1(2)
      obtain c where "scan_fwd p line (col + 1) = Some c" "col + 1 \<le> c" by auto
      with True g \<open>col < int (length line)\<close> show ?thesis
        by (subst scan_fwd.simps) auto
    next
      case False
      with g \<open>col < int (length line)\<close> show ?thesis by (subst scan_fwd.simps) auto
    qed
  next
    case False
    then show ?thesis by (subst scan_fwd.simps) auto
  qed
qed

lemma list_update_nonempty: "xs \<noteq> [] \<Longrightarrow> xs[i := v] \<noteq> []"
  by simp

lemma delete_char_saves:
  assumes "row_ok s"
  shows "\<exists>t. delete_char s ev = Some t \<and> mode t = mode s \<and> pending t = pending s
           \<and> read_only t = read_only s
           \<and> undo_stack t = push_bounded (undo_stack s) (current_snapshot s) \<and> lines t \<noteq> []"
proof -
  from assms have "lines s \<noteq> []" by (rule row_ok_lines)
  with assms show ?thesis
    by (simp add: delete_char_def Let_def row_ok_def current_snapshot_def)
qed

lemma fold_insert_nonempty:
  "ls \<noteq> [] \<Longrightarrow> fold (\<lambda>(i, line) ls. py_insert ls (f i) line) xs ls \<noteq> []"
  by (induction xs arbitrary: ls) (auto simp: py_insert_def)

lemma paste_after_saves:
  assumes "lines s \<noteq> []" "yank_buffer s \<noteq> []"
  shows "mode (paste_after s) = mode s \<and> pending (paste_after s) = pending s
         \<and> read_only (paste_after s) = read_only s
         \<and> undo_stack (paste_after s) = push_bounded (undo_stack s) (current_snapshot s)
         \<and> lines (paste_after s) \<noteq> []"
  using assms fold_insert_nonempty [of "lines s" "\<lambda>i. cursor_row s + 1 + i"]
  by (simp add: paste_after_def Let_def current_snapshot_def)

lemma paste_before_saves:
  assumes "lines s \<noteq> []" "yank_buffer s \<noteq> []"
  shows "mode (paste_before s) = mode s \<and> pending (paste_before s) = pending s
         \<and> read_only (paste_before s) = read_only s
         \<and> undo_stack (paste_before s) = push_bounded (undo_stack s) (current_snapshot s)
         \<and> lines (paste_before s) \<noteq> []"
  using assms fold_insert_nonempty [of "lines s" "\<lambda>i. cursor_row s + i"]
  by (simp add: paste_before_def Let_def current_snapshot_def)

lemma join_lines_saves:
  assumes "row_ok s" "cursor_row s < int (length (lines s)) - 1"
  shows "\<exists>t. join_lines env s = Some t \<and> mode t = mode s \<and> pending t = pending s
           \<and> read_only t = read_only s
           \<and> undo_stack t = push_bounded (undo_stack s) (current_snapshot s) \<and> lines t \<noteq> []"
proof -
  from assms have b: "0 \<le> cursor_row s" "cursor_row s < int (length (lines s))"
    "0 \<le> cursor_row s + 1" "cursor_row s + 1 < int (length (lines s))"
    by (auto simp: row_ok_def)
  then have "take (nat (cursor_row s + 1)) ((lines s)[nat (cursor_row s) := v]) \<noteq> []" for v
    by auto
  with b assms(2) show ?thesis
    by (simp add: join_lines_def Let_def current_snapshot_def)
qed

lemma delete_word_Some:
  assumes "row_ok s" "0 \<le> cursor_col s"
  shows "\<exists>t. delete_word env s = Some t \<and> mode t = mode s \<and> pending t = pending s
           \<and> read_only t = read_only s \<and> undo_stack t = undo_stack s \<and> lines t \<noteq> []
           \<and> dot_recording t = dot_recording s"
proof -
  let ?line = "lines s ! nat (cursor_row s)"
  from scan_fwd_Some [OF assms(2), of "is_word env" ?line]
  obtain c1 where c1: "scan_fwd (is_word env) ?line (cursor_col s) = Some c1" "cursor_col s \<le> c1"
    by auto
  then have "0 \<le> c1" using assms(2) by simp
  from scan_fwd_Some [OF this, of "\<lambda>ch. ch = 32" ?line]
  obtain c2 where c2: "scan_fwd (\<lambda>ch. ch = 32) ?line c1 = Some c2" by auto
  from assms(1) have "lines s \<noteq> []" by (rule row_ok_lines)
  with assms c1 c2 show ?thesis
    by (simp add: delete_word_def Let_def row_ok_def)
qed

lemma hn_x:
  "pending s = [] \<Longrightarrow> \<not> read_only s \<Longrightarrow>
   handle_normal_with r env s (char_key ''x'') = delete_char s (char_key ''x'')"
  by (simp add: handle_normal_with_def char_key_def ustr_def Let_def readonly_or_def)

lemma hn_pending_start_r:
  "pending s = [] \<Longrightarrow> \<not> read_only s \<Longrightarrow>
   handle_normal_with r env s (char_key ''r'') = Some ((dot_start s (char_key ''r''))\<lparr>pending := ustr ''r''\<rparr>)"
  by (simp add: handle_normal_with_def char_key_def ustr_def Let_def)

lemma pending_step:
  assumes "normal_ready s" "cursor_inv s"
    and h: "handle_normal_with (dot_replay depth env) env (dot_append s ev) ev
            = Some ((dot_start (dot_append s ev) ev)\<lparr>pending := p\<rparr>)"
  shows "\<exists>a. on_key depth env s ev = Some a \<and> mode a = Normal \<and> pending a = p
           \<and> \<not> read_only a \<and> same_text s a \<and> undo_stack a = undo_stack s"
proof -
  let ?t = "(dot_start (dot_append s ev) ev)\<lparr>pending := p\<rparr>"
  from assms(1) have m: "mode s = Normal" "pending s = []" "\<not> read_only s"
    by (simp_all add: normal_ready_def)
  have t: "lines ?t = lines s" "cursor_row ?t = cursor_row s" "cursor_col ?t = cursor_col s"
    "mode ?t = mode s" by simp_all
  have ne: "lines ?t \<noteq> []" using cursor_inv_lines [OF assms(2)] by simp
  from clamp_after [OF h ne] clamp_id [OF assms(2) t] m
  show ?thesis by (auto simp: on_key_normal same_text_def)
qed

text \<open>The second key of a pending command, in the state the first key left.\<close>

lemma pending_resolve:
  assumes a: "mode a = Normal" "pending a \<noteq> []"
    and h: "handle_pending env (dot_append a ev) (case character ev of None \<Rightarrow> [] | Some c \<Rightarrow> c) (key ev)
            = Some t"
    and t: "lines t \<noteq> []"
  shows "\<exists>s'. on_key depth env a ev = Some s' \<and> mode s' = mode t \<and> pending s' = pending t
           \<and> read_only s' = read_only t \<and> undo_stack s' = undo_stack t"
proof -
  have "handle_normal_with (dot_replay depth env) env (dot_append a ev) ev = Some t"
    using a(2) h by (simp add: hn_pending)
  from clamp_after [OF this t] a(1) show ?thesis by (auto simp: on_key_normal)
qed

lemma hp_d_edit:
  assumes "pending a = ustr ''d''" "\<not> read_only a" "row_ok a" "0 \<le> cursor_col a"
    and "c = ustr ''w'' \<or> c = ustr ''$'' \<or> c = ustr ''0''"
  shows "\<exists>t. handle_pending env a c c = Some t \<and> mode t = mode a \<and> pending t = []
           \<and> read_only t = read_only a
           \<and> undo_stack t = push_bounded (undo_stack a) (current_snapshot a) \<and> lines t \<noteq> []"
proof -
  let ?a = "save_undo (a\<lparr>pending := []\<rparr>)"
  from assms(3) have ne: "lines a \<noteq> []" by (rule row_ok_lines)
  have r: "row_ok ?a" "0 \<le> cursor_col ?a" using assms(3,4) by (simp_all add: row_ok_def)
  from delete_word_Some [OF r, of env]
  obtain t where t: "delete_word env ?a = Some t" "mode t = mode a" "pending t = []"
    "read_only t = read_only a" "undo_stack t = undo_stack ?a" "lines t \<noteq> []"
    by auto
  from assms(5) show ?thesis
  proof (elim disjE)
    assume "c = ustr ''w''"
    with assms(1,2) t show ?thesis
      by (simp add: handle_pending_def ustr_def Let_def current_snapshot_def)
  next
    assume "c = ustr ''$''"
    with assms(1-3) ne show ?thesis
      by (simp add: handle_pending_def ustr_def Let_def current_snapshot_def row_ok_def)
  next
    assume "c = ustr ''0''"
    with assms(1-3) ne show ?thesis
      by (simp add: handle_pending_def ustr_def Let_def current_snapshot_def row_ok_def)
  qed
qed

lemma hp_r:
  assumes "pending a = ustr ''r''" "\<not> read_only a" "row_ok a"
  shows "\<exists>t. handle_pending env a [c] [c] = Some t \<and> mode t = mode a \<and> pending t = []
           \<and> read_only t = read_only a
           \<and> undo_stack t = push_bounded (undo_stack a) (current_snapshot a) \<and> lines t \<noteq> []"
proof -
  from assms(3) have ne: "lines a \<noteq> []" by (rule row_ok_lines)
  with assms show ?thesis
    by (simp add: handle_pending_def ustr_def Let_def current_snapshot_def row_ok_def)
qed

lemma single_key_saves:
  assumes "normal_ready s" "row_ok s"
    and h: "handle_normal_with (dot_replay depth env) env (dot_append s ev) ev = Some t"
    and t: "mode t = mode s" "pending t = pending s" "read_only t = read_only s"
      "undo_stack t = push_bounded (undo_stack s) (current_snapshot s)" "lines t \<noteq> []"
  shows "\<exists>a. on_keys depth env s [ev] = Some a \<and> mode a = Normal \<and> pending a = []
           \<and> \<not> read_only a \<and> undo_stack a = push_bounded (undo_stack s) (current_snapshot s)"
proof -
  from assms(1) have m: "mode s = Normal" "pending s = []" "\<not> read_only s"
    by (simp_all add: normal_ready_def)
  from clamp_after [OF h t(5)] t m show ?thesis by (auto simp: on_key_normal)
qed

lemma two_key_saves:
  assumes s: "normal_ready s" "cursor_inv s"
    and h1: "handle_normal_with (dot_replay depth env) env (dot_append s ev1) ev1
             = Some ((dot_start (dot_append s ev1) ev1)\<lparr>pending := p\<rparr>)"
    and p: "p \<noteq> []"
    and h2: "\<And>a. pending a = p \<Longrightarrow> \<not> read_only a \<Longrightarrow> row_ok a \<Longrightarrow> 0 \<le> cursor_col a \<Longrightarrow>
               \<exists>t. handle_pending env a (case character ev2 of None \<Rightarrow> [] | Some c \<Rightarrow> c) (key ev2) = Some t
                  \<and> mode t = mode a \<and> pending t = [] \<and> read_only t = read_only a
                  \<and> undo_stack t = push_bounded (undo_stack a) (current_snapshot a)
                  \<and> lines t \<noteq> []"
  shows "\<exists>a. on_keys depth env s [ev1, ev2] = Some a \<and> mode a = Normal \<and> pending a = []
           \<and> \<not> read_only a \<and> undo_stack a = push_bounded (undo_stack s) (current_snapshot s)"
proof -
  from pending_step [OF s h1]
  obtain a where a: "on_key depth env s ev1 = Some a" "mode a = Normal" "pending a = p"
    "\<not> read_only a" "same_text s a" "undo_stack a = undo_stack s"
    by auto
  have ca: "cursor_inv a" using a(1) by (rule on_key_cursor_inv)
  let ?a = "dot_append a ev2"
  have pre: "pending ?a = p" "\<not> read_only ?a" "row_ok ?a" "0 \<le> cursor_col ?a"
    using a ca by (simp_all add: cursor_inv_def row_ok_def)
  from h2 [OF pre]
  obtain t where t: "handle_pending env ?a (case character ev2 of None \<Rightarrow> [] | Some c \<Rightarrow> c) (key ev2) = Some t"
    "mode t = mode ?a" "pending t = []" "read_only t = read_only ?a"
    "undo_stack t = push_bounded (undo_stack ?a) (current_snapshot ?a)" "lines t \<noteq> []"
    by auto
  have pa: "pending a \<noteq> []" using a(3) p by simp
  from pending_resolve [OF a(2) pa t(1) t(6), of depth]
  obtain s' where s': "on_key depth env a ev2 = Some s'" "mode s' = mode t" "pending s' = pending t"
    "read_only s' = read_only t" "undo_stack s' = undo_stack t"
    by auto
  have "current_snapshot ?a = current_snapshot s"
    using a(5) by (simp add: current_snapshot_def same_text_def)
  with a s' t show ?thesis by simp
qed

lemma op_saves:
  assumes "normal_ready s" "cursor_inv s" "op_mutates s op"
  shows "\<exists>a. on_keys depth env s (op_keys op) = Some a \<and> mode a = Normal \<and> pending a = []
           \<and> \<not> read_only a \<and> undo_stack a = push_bounded (undo_stack s) (current_snapshot s)"
proof -
  from assms(1) have m: "mode s = Normal" "pending s = []" "\<not> read_only s"
    by (simp_all add: normal_ready_def)
  from assms(2) have r: "row_ok s" and ne: "lines s \<noteq> []"
    by (simp_all add: cursor_inv_def row_ok_lines)
  have d: "handle_normal_with (dot_replay depth env) env (dot_append s (char_key ''d'')) (char_key ''d'')
           = Some ((dot_start (dot_append s (char_key ''d'')) (char_key ''d''))\<lparr>pending := ustr ''d''\<rparr>)"
    using m by (simp add: hn_pending_start_d)
  have dne: "ustr ''d'' \<noteq> []" "ustr ''r'' \<noteq> []" by (simp_all add: ustr_def)
  show ?thesis
  proof (cases op)
    case DeleteChar
    let ?ev = "char_key ''x''"
    let ?a = "dot_append s ?ev"
    have "row_ok ?a" using r by (simp add: row_ok_def)
    from delete_char_saves [OF this, of ?ev]
    obtain t where t: "delete_char ?a ?ev = Some t" "mode t = mode s" "pending t = pending s"
      "read_only t = read_only s" "undo_stack t = push_bounded (undo_stack s) (current_snapshot s)"
      "lines t \<noteq> []"
      by (auto simp: current_snapshot_def)
    have "handle_normal_with (dot_replay depth env) env ?a ?ev = Some t"
      using m t(1) by (simp add: hn_x)
    from single_key_saves [OF assms(1) r this t(2-6)] DeleteChar show ?thesis by simp
  next
    case PasteAfter
    let ?ev = "char_key ''p''"
    let ?a = "dot_stop (dot_start (dot_append s ?ev) ?ev)"
    have "lines ?a \<noteq> []" "yank_buffer ?a \<noteq> []" using ne assms(3) PasteAfter by simp_all
    from paste_after_saves [OF this]
    have t: "mode (paste_after ?a) = mode s" "pending (paste_after ?a) = pending s"
      "read_only (paste_after ?a) = read_only s"
      "undo_stack (paste_after ?a) = push_bounded (undo_stack s) (current_snapshot s)"
      "lines (paste_after ?a) \<noteq> []"
      by (simp_all add: current_snapshot_def)
    have "handle_normal_with (dot_replay depth env) env (dot_append s ?ev) ?ev = Some (paste_after ?a)"
      using m by (simp add: hn_p)
    from single_key_saves [OF assms(1) r this t] PasteAfter show ?thesis by simp
  next
    case PasteBefore
    let ?ev = "char_key ''P''"
    let ?a = "dot_stop (dot_start (dot_append s ?ev) ?ev)"
    have "lines ?a \<noteq> []" "yank_buffer ?a \<noteq> []" using ne assms(3) PasteBefore by simp_all
    from paste_before_saves [OF this]
    have t: "mode (paste_before ?a) = mode s" "pending (paste_before ?a) = pending s"
      "read_only (paste_before ?a) = read_only s"
      "undo_stack (paste_before ?a) = push_bounded (undo_stack s) (current_snapshot s)"
      "lines (paste_before ?a) \<noteq> []"
      by (simp_all add: current_snapshot_def)
    have "handle_normal_with (dot_replay depth env) env (dot_append s ?ev) ?ev = Some (paste_before ?a)"
      using m by (simp add: hn_P)
    from single_key_saves [OF assms(1) r this t] PasteBefore show ?thesis by simp
  next
    case JoinLines
    let ?ev = "char_key ''J''"
    let ?a = "dot_stop (dot_start (dot_append s ?ev) ?ev)"
    have "row_ok ?a" "cursor_row ?a < int (length (lines ?a)) - 1"
      using r assms(3) JoinLines by (simp_all add: row_ok_def)
    from join_lines_saves [OF this, of env]
    obtain t where t: "join_lines env ?a = Some t" "mode t = mode s" "pending t = pending s"
      "read_only t = read_only s" "undo_stack t = push_bounded (undo_stack s) (current_snapshot s)"
      "lines t \<noteq> []"
      by (auto simp: current_snapshot_def)
    have "handle_normal_with (dot_replay depth env) env (dot_append s ?ev) ?ev = Some t"
      using m t(1) by (simp add: hn_J)
    from single_key_saves [OF assms(1) r this t(2-6)] JoinLines show ?thesis by simp
  next
    case DeleteLine
    have "\<exists>t. handle_pending env a (case character (char_key ''d'') of None \<Rightarrow> [] | Some c \<Rightarrow> c)
                 (key (char_key ''d'')) = Some t
            \<and> mode t = mode a \<and> pending t = [] \<and> read_only t = read_only a
            \<and> undo_stack t = push_bounded (undo_stack a) (current_snapshot a) \<and> lines t \<noteq> []"
      if "pending a = ustr ''d''" "\<not> read_only a" "row_ok a" "0 \<le> cursor_col a" for a
      using hp_dd [OF that(1-3), of env] dd_lines_nonempty [OF that(3)]
      by (auto simp: char_key_def current_snapshot_def)
    from two_key_saves [OF assms(1,2) d dne(1) this] DeleteLine show ?thesis by simp
  next
    case DeleteWord
    have "\<exists>t. handle_pending env a (case character (char_key ''w'') of None \<Rightarrow> [] | Some c \<Rightarrow> c)
                 (key (char_key ''w'')) = Some t
            \<and> mode t = mode a \<and> pending t = [] \<and> read_only t = read_only a
            \<and> undo_stack t = push_bounded (undo_stack a) (current_snapshot a) \<and> lines t \<noteq> []"
      if "pending a = ustr ''d''" "\<not> read_only a" "row_ok a" "0 \<le> cursor_col a" for a
      using hp_d_edit [OF that, of "ustr ''w''" env] by (simp add: char_key_def)
    from two_key_saves [OF assms(1,2) d dne(1) this] DeleteWord show ?thesis by simp
  next
    case DeleteToEnd
    have "\<exists>t. handle_pending env a (case character (char_key ''$'') of None \<Rightarrow> [] | Some c \<Rightarrow> c)
                 (key (char_key ''$'')) = Some t
            \<and> mode t = mode a \<and> pending t = [] \<and> read_only t = read_only a
            \<and> undo_stack t = push_bounded (undo_stack a) (current_snapshot a) \<and> lines t \<noteq> []"
      if "pending a = ustr ''d''" "\<not> read_only a" "row_ok a" "0 \<le> cursor_col a" for a
      using hp_d_edit [OF that, of "ustr ''$''" env] by (simp add: char_key_def)
    from two_key_saves [OF assms(1,2) d dne(1) this] DeleteToEnd show ?thesis by simp
  next
    case DeleteToStart
    have "\<exists>t. handle_pending env a (case character (char_key ''0'') of None \<Rightarrow> [] | Some c \<Rightarrow> c)
                 (key (char_key ''0'')) = Some t
            \<and> mode t = mode a \<and> pending t = [] \<and> read_only t = read_only a
            \<and> undo_stack t = push_bounded (undo_stack a) (current_snapshot a) \<and> lines t \<noteq> []"
      if "pending a = ustr ''d''" "\<not> read_only a" "row_ok a" "0 \<le> cursor_col a" for a
      using hp_d_edit [OF that, of "ustr ''0''" env] by (simp add: char_key_def)
    from two_key_saves [OF assms(1,2) d dne(1) this] DeleteToStart show ?thesis by simp
  next
    case (ReplaceChar c)
    let ?ev2 = "\<lparr>key = [c], character = Some [c]\<rparr>"
    have rr: "handle_normal_with (dot_replay depth env) env (dot_append s (char_key ''r'')) (char_key ''r'')
           = Some ((dot_start (dot_append s (char_key ''r'')) (char_key ''r''))\<lparr>pending := ustr ''r''\<rparr>)"
      using m by (simp add: hn_pending_start_r)
    have "\<exists>t. handle_pending env a (case character ?ev2 of None \<Rightarrow> [] | Some c \<Rightarrow> c) (key ?ev2) = Some t
            \<and> mode t = mode a \<and> pending t = [] \<and> read_only t = read_only a
            \<and> undo_stack t = push_bounded (undo_stack a) (current_snapshot a) \<and> lines t \<noteq> []"
      if "pending a = ustr ''r''" "\<not> read_only a" "row_ok a" "0 \<le> cursor_col a" for a
      using hp_r [OF that(1-3), of env c] by simp
    from two_key_saves [OF assms(1,2) rr dne(2) this] ReplaceChar show ?thesis by simp
  qed
qed

text \<open>
  C2, as the code has it. For each Normal-mode edit that is complete in Normal mode
  (\<open>x\<close>, \<open>dd\<close>, \<open>dw\<close>, \<open>d$\<close>, \<open>d0\<close>, \<open>r\<close> and a character, \<open>p\<close> and \<open>P\<close> with a
  yank buffer that is not empty, \<open>J\<close> with a line below the cursor), applied in Normal
  mode with no pending prefix, in a session that is not read-only and with the cursor
  invariant: the keys of the edit, then \<open>u\<close>, then \<open>ctrl+r\<close> are processed without an
  exception; after \<open>u\<close> the buffer and the cursor are those before the edit, and after
  \<open>ctrl+r\<close> those after the edit.
\<close>

theorem undo_redo_inverse:
  assumes "normal_ready s" and "cursor_inv s" and "op_mutates s op"
  shows "\<exists>s1 s2 s3. on_keys depth env s (op_keys op) = Some s1
           \<and> on_key depth env s1 (char_key ''u'') = Some s2
           \<and> on_key depth env s2 (named_key ''ctrl+r'') = Some s3
           \<and> same_text s s2 \<and> same_text s1 s3"
proof -
  from op_saves [OF assms, of depth env]
  obtain a where a: "on_keys depth env s (op_keys op) = Some a" "mode a = Normal" "pending a = []"
    "\<not> read_only a" "undo_stack a = push_bounded (undo_stack s) (current_snapshot s)"
    by auto
  have "op_keys op \<noteq> []" by (cases op) simp_all
  with a(1) have ca: "cursor_inv a" by (rule on_keys_cursor_inv)
  from assms(1) have "mode s = Normal" by (simp add: normal_ready_def)
  from undo_then_redo [OF assms(2) this ca a(2-5), of depth env] a(1)
  show ?thesis by blast
qed

lemma fresh_cursor_inv: "c \<noteq> [] \<Longrightarrow> cursor_inv (fresh_editor c)"
proof -
  assume c: "c \<noteq> []"
  have "split_on sep t \<noteq> []" for sep t by (induction t) (auto split: list.splits)
  then have "lines (fresh_editor c) \<noteq> []" using c by (simp add: fresh_lines split_lines_def)
  then show ?thesis
    by (cases "lines (fresh_editor c)")
       (auto simp: cursor_inv_def row_ok_def cur_line_def fresh_fields)
qed

text \<open>
  On the buffer \<open>["ab"]\<close> with the edit \<open>x\<close>: the three steps are processed, \<open>u\<close>
  restores the buffer and cursor, \<open>ctrl+r\<close> the state after \<open>x\<close>.
\<close>

theorem undo_redo_delete_char:
  "\<exists>s1 s2 s3. on_keys 1 ascii_env (fresh_editor (ustr ''ab'')) (op_keys DeleteChar) = Some s1
     \<and> on_key 1 ascii_env s1 (char_key ''u'') = Some s2
     \<and> on_key 1 ascii_env s2 (named_key ''ctrl+r'') = Some s3
     \<and> same_text (fresh_editor (ustr ''ab'')) s2 \<and> same_text s1 s3"
proof -
  have "ustr ''ab'' \<noteq> []" by (simp add: ustr_def)
  from undo_redo_inverse [OF fresh_ready fresh_cursor_inv [OF this], of DeleteChar 1 ascii_env]
  show ?thesis by simp
qed

lemma on_key_insert:
  "mode s = Insert \<Longrightarrow>
   on_key depth env s ev = Option.bind (handle_insert env (dot_append s ev) ev) clamp_cursor"
  by (simp add: on_key_def Let_def)

lemma hi_u:
  "handle_insert env s (char_key ''u'') = insert_printable env s (Some (ustr ''u''))"
  by (simp add: handle_insert_def char_key_def ustr_def Let_def)

text \<open>
  The claim C2 as stated fails for the edits that enter Insert mode: after \<open>o\<close> on the
  buffer \<open>["{}"]\<close> the key \<open>u\<close> is typed into the new line, and the buffer is
  \<open>["{}", "u"]\<close>, not \<open>["{}"]\<close>.
\<close>

theorem undo_after_open_line_types_u:
  "map_option lines (on_keys 1 ascii_env (fresh_editor (ustr ''{}'')) [char_key ''o'', char_key ''u''])
   = Some [ustr ''{}'', ustr ''u'']"
proof -
  let ?s = "fresh_editor (ustr ''{}'')"
  let ?u = "char_key ''u''"
  have i: "indent_of ascii_env (ustr ''{}'') = 0" "extra_of ascii_env (ustr ''{}'') = []"
    by (simp_all add: ascii_simps)
  have c: "cur_line ?s = ustr ''{}''" by (simp add: cur_line_def fresh_braces_fields)
  have "row_ok ?s" using fresh_braces_ready(2) by (simp add: cursor_inv_def)
  from open_line_below [OF fresh_ready this, of 1 ascii_env]
  obtain a where a: "on_key 1 ascii_env ?s (char_key ''o'') = Some a" "mode a = Insert"
    "lines a = [ustr ''{}'', []]" "cursor_row a = 1" "cursor_col a = 0"
    by (auto simp: c i fresh_braces_fields spaces_def)
  let ?a = "dot_append a ?u"
  let ?t = "(save_undo ?a)\<lparr>lines := [ustr ''{}'', ustr ''u''], cursor_col := 1\<rparr>"
  have "handle_insert ascii_env ?a ?u = Some ?t"
    using a by (simp add: hi_u insert_printable_def str_isprintable_def Let_def slice_to_def
        slice_from_def)
       (simp add: ascii_env_def ustr_def)
  moreover have "lines ?t \<noteq> []" by simp
  ultimately obtain s' where "on_key 1 ascii_env a ?u = Some s'" "lines s' = lines ?t"
    using clamp_after [of "handle_insert ascii_env ?a ?u" ?t] a(2)
    by (auto simp: on_key_insert)
  with a(1) show ?thesis by simp
qed

subsection \<open>Invariants of the handlers\<close>















subsection \<open>The bound on the undo stack\<close>

lemma length_push_bounded:
  "length (push_bounded u e) = (if length u \<ge> 200 then length u else length u + 1)"
  by (cases u) (auto simp: push_bounded_def Let_def)

lemmas stacks_simps = stacks_ok_def bounded_def length_push_bounded save_undo_def
  enter_insert_def dot_stop_def dot_start_def dot_append_def post_message_def






lemma stacks_ok_current_indent_free: "stacks_ok (s\<lparr>pending := p\<rparr>) = stacks_ok s"
  by (simp add: stacks_ok_def)









lemma stacks_ok_dot [simp]:
  "stacks_ok (dot_start s ev) = stacks_ok s" "stacks_ok (dot_stop s) = stacks_ok s"
  "stacks_ok (dot_append s ev) = stacks_ok s"
  by (simp_all add: stacks_simps)



















section \<open>Verification: diff engine\<close>

subsection \<open>Alignment of the result\<close>



lemma aligned_hunks [simp]: "aligned (r\<lparr>hunks := h\<rparr>) = aligned r"
  by (simp add: aligned_def)



























end
